theory Spec2Isabelle
  imports Main "HOL-Library.Word"
begin

section \<open>The network and MQTT layer of the lock bridge (Network.cpp)\<close>

text \<open>
  A shallow embedding of the MQTT session manager of \<^verbatim>\<open>src/Network.cpp\<close>: the topic
  path builder, the reconnection protocol, the periodic \<^verbatim>\<open>update()\<close> tick with its
  watchdogs, the inbound dispatch and the device selection at boot.

  Conventions. A C string (\<^verbatim>\<open>const char*\<close>, \<^verbatim>\<open>String\<close>) is a \<open>string\<close>: the
  characters before the terminating zero byte. \<^verbatim>\<open>unsigned long\<close> is 32 bits wide on
  the ESP32 and is a \<open>32 word\<close>, so \<open>+\<close> and \<open>-\<close> wrap as in the firmware. The fixed
  sizes of the path buffers (200, 250 and 500 bytes) are not modelled: a path that does
  not fit is undefined behaviour in the source. Log output is not modelled.
\<close>

type_synonym u32 = "32 word"
type_synonym u8 = "8 word"

subsection \<open>C strings\<close>

text \<open>The zero byte that terminates a C string.\<close>

definition NUL :: char where
  "NUL = CHR 0x00"

text \<open>
  \<^verbatim>\<open>s[i]\<close> on a C string: the terminator at \<open>i = length s\<close>. A read past the
  terminator is outside the string in the source; the model reads a zero byte there.
\<close>

definition cnth :: "string \<Rightarrow> nat \<Rightarrow> char" where
  "cnth s i = (if i < length s then s ! i else NUL)"

text \<open>The C string held in a character buffer: everything before the first zero byte.\<close>

definition cstr :: "string \<Rightarrow> string" where
  "cstr buf = takeWhile (\<lambda>ch. ch \<noteq> NUL) buf"

text \<open>The same for a byte buffer that is cast to \<^verbatim>\<open>const char*\<close>.\<close>

definition cstr_bytes :: "u8 list \<Rightarrow> u8 list" where
  "cstr_bytes buf = takeWhile (\<lambda>b. b \<noteq> 0) buf"

text \<open>\<^verbatim>\<open>strncmp(a, b, n) == 0\<close> for \<open>n = strlen(a)\<close>: \<open>b\<close> starts with \<open>a\<close>.\<close>

definition strncmp_eq :: "string \<Rightarrow> string \<Rightarrow> nat \<Rightarrow> bool" where
  "strncmp_eq a b n = (take n a = take n b)"

definition isdigit :: "char \<Rightarrow> bool" where
  "isdigit ch = (48 \<le> (of_char ch :: nat) \<and> (of_char ch :: nat) \<le> 57)"

definition isspace :: "char \<Rightarrow> bool" where
  "isspace ch = ((of_char ch :: nat) = 32 \<or> (9 \<le> (of_char ch :: nat) \<and> (of_char ch :: nat) \<le> 13))"

fun atoi_digits :: "int \<Rightarrow> string \<Rightarrow> int" where
  "atoi_digits acc [] = acc"
| "atoi_digits acc (ch # cs) =
     (if isdigit ch then atoi_digits (acc * 10 + (int (of_char ch) - 48)) cs else acc)"

text \<open>\<^verbatim>\<open>std::atoi\<close>: leading white space, an optional sign, then decimal digits.\<close>

definition atoi :: "string \<Rightarrow> int" where
  "atoi s =
     (case dropWhile isspace s of
        [] \<Rightarrow> 0
      | ch # cs \<Rightarrow>
          if ch = CHR ''-'' then - atoi_digits 0 cs
          else if ch = CHR ''+'' then atoi_digits 0 cs
          else atoi_digits 0 (ch # cs))"

definition digit_char :: "nat \<Rightarrow> char" where
  "digit_char d = char_of (48 + d)"

text \<open>\<^verbatim>\<open>std::to_string\<close> and \<^verbatim>\<open>utoa(_, _, 10)\<close> on an unsigned value.\<close>

fun to_string :: "nat \<Rightarrow> string" where
  "to_string n = (if n < 10 then [digit_char n] else to_string (n div 10) @ [digit_char (n mod 10)])"

declare to_string.simps [simp del]

text \<open>\<^verbatim>\<open>itoa(value, str, 10)\<close>.\<close>

definition itoa :: "int \<Rightarrow> string" where
  "itoa v = (if v < 0 then CHR ''-'' # to_string (nat (- v)) else to_string (nat v))"

subsection \<open>The topic path builder\<close>

text \<open>
  \<^verbatim>\<open>buildMqttPath\<close>, lines 562-586. The inner \<^verbatim>\<open>while\<close> loop copies a fragment
  character by character to the end of what has been written so far.
\<close>

fun copy_path :: "string \<Rightarrow> string \<Rightarrow> string" where
  "copy_path outPath [] = outPath"
| "copy_path outPath (ch # path) = copy_path (outPath @ [ch]) path"

text \<open>
  One round of the outer loop, on the pair of the output so far and \<^verbatim>\<open>pathCount\<close>.
  \<^verbatim>\<open>path[0] != '/'\<close> holds for the empty fragment, whose first byte is the terminator.
\<close>

definition build_step :: "string \<times> nat \<Rightarrow> string \<Rightarrow> string \<times> nat" where
  "build_step st path =
     (let outPath = fst st; pathCount = snd st;
          outPath1 = (if pathCount > 0 \<and> cnth path 0 \<noteq> CHR ''/''
                      then outPath @ [CHR ''/''] else outPath)
      in (copy_path outPath1 path, pathCount + 1))"

definition buildMqttPath :: "string list \<Rightarrow> string" where
  "buildMqttPath paths = fst (foldl build_step ([], 0) paths)"

text \<open>
  The number of characters of the output that come from no fragment: the separators
  the builder has inserted.
\<close>

definition inserted_separators :: "string list \<Rightarrow> nat" where
  "inserted_separators paths = length (buildMqttPath paths) - sum_list (map length paths)"

text \<open>What the builder writes for a fragment that is not the first one.\<close>

definition joined :: "string \<Rightarrow> string" where
  "joined path = (if cnth path 0 \<noteq> CHR ''/'' then CHR ''/'' # path else path)"

subsection \<open>Enumerations and the environment\<close>

text \<open>
  The enumerations this file uses. Their declarations are in headers that are not part
  of the sources at hand; the members are the ones \<^verbatim>\<open>Network.cpp\<close> names, and
  \<open>OtherRole\<close> stands for every pin role it does not name.
\<close>

datatype RestartReason =
    RestartOnDisconnectWatchdog
  | NetworkTimeoutWatchdog
  | NetworkDeviceCriticalFailure
  | NetworkDeviceCriticalFailureNoWifiFallback

datatype ReconnectStatus = Failure | CriticalFailure | Success

datatype NetworkDeviceType =
    WiFi | W5500 | Olimex_LAN8720 | WT32_LAN8720 | M5STACK_PoESP32_Unit | LilyGO_T_ETH_POE

datatype PinRole = Disabled | GeneralInputPullDown | GeneralInputPullUp | GeneralOutput | OtherRole

datatype pref_key =
    preference_network_hardware
  | preference_network_wifi_fallback_disabled
  | preference_mqtt_broker_port
  | preference_check_updates
  | preference_latest_version

text \<open>
  An inbound broker message as the transport hands it to the message callback: the
  topic, the payload bytes (\<^verbatim>\<open>len\<close> is their number), and the chunk metadata
  \<^verbatim>\<open>index\<close> and \<^verbatim>\<open>total\<close>.
\<close>

record message =
  msg_topic :: string
  msg_payload :: "u8 list"
  msg_index :: nat
  msg_total :: nat

text \<open>
  The callbacks the transport fires: \<^verbatim>\<open>setupDevice\<close> registers the first two (lines
  144-151), \<^verbatim>\<open>reconnect\<close> the third (line 510).
\<close>

datatype dev_event =
    MqttConnectEvent bool
  | MqttDisconnectEvent nat
  | MqttMessageEvent message

text \<open>
  Every call that leaves \<^verbatim>\<open>Network.cpp\<close> and can change something: on the
  transport (\<^verbatim>\<open>_device->...\<close>), the clock, the registered callbacks and receivers
  (named by their position of registration), the GPIO pins, the preferences store and the
  HTTP client. \<open>HttpsGet\<close> is the whole exchange of lines 367-389.
\<close>

datatype call =
    DevUpdate
  | DevReconnect
  | DevDisableMqtt
  | MqttSetCredentials string string
  | SetWill string nat bool string
  | MqttSetServer string int
  | MqttConnect
  | MqttDisconnect bool
  | MqttOnMessage
  | MqttSubscribe string nat
  | MqttPublish string nat bool string
  | PrintError
  | Delay nat
  | Sleep nat
  | KeepAliveCallback
  | ReconnectedCallback nat
  | ReceiverOnMqttDataReceived nat string "u8 list" nat
  | DigitalWrite int bool
  | PutInt pref_key int
  | PutString pref_key string
  | HttpsGet

text \<open>
  The environment of the network layer, over an arbitrary type \<open>'w\<close> of worlds (the
  transport, the broker behind it, the clock, the pins, the preferences). \<open>exec\<close> is
  the effect of a call on the world; the other fields read the world. The value a call
  returns is read from the world it leaves: \<open>update_events\<close> are the callbacks the
  transport fired during the last \<^verbatim>\<open>update()\<close>, in order, \<open>reconnect_status\<close> is
  what the last \<^verbatim>\<open>reconnect()\<close> of the transport returned, \<open>publish_result\<close> what
  the last \<^verbatim>\<open>mqttPublish\<close> returned. \<open>https_tag_name\<close> is the \<^verbatim>\<open>tag_name\<close> of
  the release document when the last HTTP exchange delivered one.
  \<open>latest_version_differs\<close> is the outcome of the comparison of line 382, whose
  operand types are declared in a header that is not at hand.
\<close>

record 'w env =
  exec :: "call \<Rightarrow> 'w \<Rightarrow> 'w"
  millis :: "'w \<Rightarrow> u32"
  isConnected :: "'w \<Rightarrow> bool"
  mqttConnected :: "'w \<Rightarrow> bool"
  update_events :: "'w \<Rightarrow> dev_event list"
  reconnect_status :: "'w \<Rightarrow> ReconnectStatus"
  publish_result :: "'w \<Rightarrow> nat"
  signalStrength :: "'w \<Rightarrow> u8"
  localIP :: "'w \<Rightarrow> string"
  deviceName :: "'w \<Rightarrow> string"
  getPinRole :: "'w \<Rightarrow> int \<Rightarrow> PinRole"
  digitalRead :: "'w \<Rightarrow> u8 \<Rightarrow> bool"
  getInt :: "'w \<Rightarrow> pref_key \<Rightarrow> int"
  getBool :: "'w \<Rightarrow> pref_key \<Rightarrow> bool"
  free_heap_size :: "'w \<Rightarrow> u32"
  getRestartReason :: "'w \<Rightarrow> string"
  getEspRestartReason :: "'w \<Rightarrow> string"
  https_tag_name :: "'w \<Rightarrow> string option"
  latest_version_differs :: "'w \<Rightarrow> bool"

text \<open>
  The macros of \<^verbatim>\<open>Config.h\<close> and \<^verbatim>\<open>MqttTopics.h\<close> that the modelled functions
  use. The headers are not at hand, so the values are parameters.
\<close>

record macros =
  MQTT_QOS_LEVEL :: nat
  GPIO_DEBOUNCE_TIME :: u32
  NUKI_HUB_VERSION :: string
  mqtt_topic_mqtt_connection_state :: string
  mqtt_topic_network_device :: string
  mqtt_topic_info_nuki_hub_ip :: string
  mqtt_topic_info_nuki_hub_version :: string
  mqtt_topic_info_nuki_hub_latest :: string
  mqtt_topic_presence :: string
  mqtt_topic_wifi_rssi :: string
  mqtt_topic_uptime :: string
  mqtt_topic_freeheap :: string
  mqtt_topic_restart_reason_fw :: string
  mqtt_topic_restart_reason_esp :: string
  mqtt_topic_gpio_prefix :: string
  mqtt_topic_gpio_pin :: string
  mqtt_topic_gpio_state :: string

subsection \<open>The state of the network layer\<close>

text \<open>
  The member variables of \<^verbatim>\<open>Network\<close> and the globals of the file that the modelled
  functions read or write, under their names without the leading underscore.
  \<open>WiFi_fallbackDetect\<close> is the C string in the reboot-surviving buffer of line 15.
  \<open>keepAliveCallback\<close> tells whether the callback is set. \<open>mqttReceivers\<close> and
  \<open>reconnectedCallbacks\<close> hold the registered handles in registration order.
  \<open>initTopics\<close> and \<open>gpioTs\<close> are the two maps, as lists of their entries in
  ascending order of the keys. \<open>networkTimeout\<close> and \<open>rssiPublishInterval\<close> are
  signed in the source.

  \<open>world\<close> is the current world; \<open>trace\<close> lists the calls made so far, oldest
  first. The trace is not a variable of the source: it records what the source does to
  its environment.
\<close>

record 'w net =
  world :: 'w
  trace :: "call list"
  WiFi_fallbackDetect :: string
  networkDeviceType :: NetworkDeviceType
  mqttEnabled :: bool
  restartOnDisconnect :: bool
  networkTimeout :: int
  lastConnectedTs :: u32
  mqttConnectionState :: int
  nextReconnect :: u32
  connectReplyReceived :: bool
  keepAliveCallback :: bool
  ignoreSubscriptionsTs :: u32
  firstConnect :: bool
  mqttBrokerAddr :: string
  mqttUser :: string
  mqttPass :: string
  mqttConnectionStateTopic :: string
  lastWillPayload :: string
  maintenancePathPrefix :: string
  lockPath :: string
  mqttPresencePrefix :: string
  subscribedTopics :: "string list"
  initTopics :: "(string \<times> string) list"
  mqttReceivers :: "nat list"
  reconnectedCallbacks :: "nat list"
  presenceCsv :: "string option"
  rssiPublishInterval :: int
  lastRssiTs :: u32
  lastRssi :: u8
  lastMaintenanceTs :: u32
  publishDebugInfo :: bool
  versionPublished :: bool
  lastUpdateCheckTs :: u32
  latestVersion :: string
  gpioTs :: "(u8 \<times> u32) list"

text \<open>
  How a function of the source ends: it returns, or it calls \<^verbatim>\<open>restartEsp\<close>, which
  records the reason and restarts the chip and so never returns.
\<close>

datatype ('r, 'w) result = Return 'r "'w net" | Restart RestartReason "'w net"

text \<open>A call into the environment: the world moves on and the trace grows.\<close>

definition perform :: "'w env \<Rightarrow> call \<Rightarrow> 'w net \<Rightarrow> 'w net" where
  "perform env c s = s\<lparr>world := exec env c (world s), trace := trace s @ [c]\<rparr>"

text \<open>The calls a state has added to the trace of an earlier state.\<close>

definition calls_since :: "'w net \<Rightarrow> 'w net \<Rightarrow> call list" where
  "calls_since s t = drop (length (trace s)) (trace t)"

subsection \<open>The outbound publisher\<close>

text \<open>
  \<^verbatim>\<open>_device->mqttPublish(path, MQTT_QOS_LEVEL, true, value)\<close>, as every publishing
  function calls it.
\<close>

definition mqttPublish :: "'w env \<Rightarrow> macros \<Rightarrow> string \<Rightarrow> string \<Rightarrow> 'w net \<Rightarrow> 'w net" where
  "mqttPublish env m path v s = perform env (MqttPublish path (MQTT_QOS_LEVEL m) True v) s"

definition publishString ::
  "'w env \<Rightarrow> macros \<Rightarrow> string \<Rightarrow> string \<Rightarrow> string \<Rightarrow> 'w net \<Rightarrow> bool \<times> 'w net" where
  "publishString env m prefix topic v s =
     (let s1 = mqttPublish env m (buildMqttPath [prefix, topic]) v s
      in (publish_result env (world s1) > 0, s1))"

definition publishInt ::
  "'w env \<Rightarrow> macros \<Rightarrow> string \<Rightarrow> string \<Rightarrow> int \<Rightarrow> 'w net \<Rightarrow> 'w net" where
  "publishInt env m prefix topic v s = mqttPublish env m (buildMqttPath [prefix, topic]) (itoa v) s"

definition publishUInt ::
  "'w env \<Rightarrow> macros \<Rightarrow> string \<Rightarrow> string \<Rightarrow> u32 \<Rightarrow> 'w net \<Rightarrow> 'w net" where
  "publishUInt env m prefix topic v s =
     mqttPublish env m (buildMqttPath [prefix, topic]) (to_string (unat v)) s"

definition publishULong ::
  "'w env \<Rightarrow> macros \<Rightarrow> string \<Rightarrow> string \<Rightarrow> u32 \<Rightarrow> 'w net \<Rightarrow> 'w net" where
  "publishULong env m prefix topic v s =
     mqttPublish env m (buildMqttPath [prefix, topic]) (to_string (unat v)) s"

subsection \<open>Registration\<close>

text \<open>\<^verbatim>\<open>subscribe(prefix, path)\<close>, lines 546-551: \<^verbatim>\<open>push_back\<close> appends.\<close>

definition subscribe :: "string \<Rightarrow> string \<Rightarrow> 'w net \<Rightarrow> 'w net" where
  "subscribe prefix path s =
     s\<lparr>subscribedTopics := subscribedTopics s @ [buildMqttPath [prefix, path]]\<rparr>"

text \<open>
  \<^verbatim>\<open>_initTopics[pathStr] = valueStr\<close>: the entry of an existing key is overwritten, a
  new key is entered at its place in the order of the keys.
\<close>

fun map_put :: "string \<Rightarrow> string \<Rightarrow> (string \<times> string) list \<Rightarrow> (string \<times> string) list" where
  "map_put k v [] = [(k, v)]"
| "map_put k v ((k', v') # kvs) =
     (if k = k' then (k, v) # kvs
      else if lexordp (\<lambda>a b. (of_char a :: nat) < of_char b) k k' then (k, v) # (k', v') # kvs
      else (k', v') # map_put k v kvs)"

text \<open>\<^verbatim>\<open>initTopic(prefix, path, value)\<close>, lines 553-560.\<close>

definition initTopic :: "string \<Rightarrow> string \<Rightarrow> string \<Rightarrow> 'w net \<Rightarrow> 'w net" where
  "initTopic prefix path v s =
     s\<lparr>initTopics := map_put (buildMqttPath [prefix, path]) v (initTopics s)\<rparr>"

definition registerMqttReceiver :: "nat \<Rightarrow> 'w net \<Rightarrow> 'w net" where
  "registerMqttReceiver receiver s = s\<lparr>mqttReceivers := mqttReceivers s @ [receiver]\<rparr>"

definition addReconnectedCallback :: "nat \<Rightarrow> 'w net \<Rightarrow> 'w net" where
  "addReconnectedCallback reconnectedCallback s =
     s\<lparr>reconnectedCallbacks := reconnectedCallbacks s @ [reconnectedCallback]\<rparr>"

text \<open>\<^verbatim>\<open>disableMqtt()\<close>, lines 3273-3277.\<close>

definition disableMqtt :: "'w env \<Rightarrow> 'w net \<Rightarrow> 'w net" where
  "disableMqtt env s = (perform env DevDisableMqtt s)\<lparr>mqttEnabled := False\<rparr>"

subsection \<open>The inbound dispatch\<close>

text \<open>
  \<^verbatim>\<open>parseGpioTopics\<close>, lines 622-650. \<open>payload\<close> is the byte buffer the caller hands
  over; \<^verbatim>\<open>strcmp((const char*)payload, "1")\<close> reads it as a C string. \<open>HIGH\<close> is
  \<open>True\<close>.
\<close>

definition parseGpioTopics ::
  "'w env \<Rightarrow> macros \<Rightarrow> string \<Rightarrow> u8 list \<Rightarrow> 'w net \<Rightarrow> 'w net" where
  "parseGpioTopics env m topic payload s =
     (let gpioPath = buildMqttPath [lockPath s, mqtt_topic_gpio_prefix m, mqtt_topic_gpio_pin m];
          gpioLen = length gpioPath
      in if strncmp_eq gpioPath topic gpioLen then
           let pinStr0 = cnth topic gpioLen;
               pinStr1 = (if cnth topic (gpioLen + 1) \<noteq> CHR ''/''
                          then cnth topic (gpioLen + 1) else NUL);
               pin = atoi (cstr [pinStr0, pinStr1, NUL])
           in if getPinRole env (world s) pin = GeneralOutput
              then perform env (DigitalWrite pin (cstr_bytes payload = [49])) s
              else s
         else s)"

text \<open>
  \<^verbatim>\<open>onMqttDataReceived\<close>, lines 606-619, with \<open>idx\<close> and \<open>tot\<close> for
  \<^verbatim>\<open>index\<close> and \<^verbatim>\<open>total\<close>. A receiver is handed the topic, the buffer and
  \<^verbatim>\<open>index\<close>.
\<close>

definition onMqttDataReceived ::
  "'w env \<Rightarrow> macros \<Rightarrow> string \<Rightarrow> u8 list \<Rightarrow> nat \<Rightarrow> nat \<Rightarrow> nat \<Rightarrow> 'w net \<Rightarrow> 'w net" where
  "onMqttDataReceived env m topic payload len idx tot s =
     (let s1 = parseGpioTopics env m topic payload s
      in if millis env (world s1) < ignoreSubscriptionsTs s1 then s1
         else foldl (\<lambda>st receiver.
                 perform env (ReceiverOnMqttDataReceived receiver topic payload idx) st)
               s1 (mqttReceivers s1))"

text \<open>
  The buffer \<^verbatim>\<open>value\<close> of \<^verbatim>\<open>onMqttDataReceivedCallback\<close>, lines 595-601: 50 zero
  bytes, of which the first \<^verbatim>\<open>min(len, 49)\<close> are overwritten with the payload.
\<close>

definition value_buffer :: "u8 list \<Rightarrow> u8 list" where
  "value_buffer payload =
     (let l = min (length payload) (50 - 1)
      in take l payload @ replicate (50 - l) 0)"

text \<open>\<^verbatim>\<open>onMqttDataReceivedCallback\<close>, lines 593-604.\<close>

definition onMqttDataReceivedCallback :: "'w env \<Rightarrow> macros \<Rightarrow> message \<Rightarrow> 'w net \<Rightarrow> 'w net" where
  "onMqttDataReceivedCallback env m msg s =
     onMqttDataReceived env m (msg_topic msg) (value_buffer (msg_payload msg))
       (length (msg_payload msg)) (msg_index msg) (msg_total msg) s"

text \<open>\<^verbatim>\<open>onMqttConnect\<close> and \<^verbatim>\<open>onMqttDisconnect\<close>, lines 417-457.\<close>

definition onMqttConnect :: "bool \<Rightarrow> 'w net \<Rightarrow> 'w net" where
  "onMqttConnect sessionPresent s = s\<lparr>connectReplyReceived := True\<rparr>"

definition onMqttDisconnect :: "nat \<Rightarrow> 'w net \<Rightarrow> 'w net" where
  "onMqttDisconnect reason s = s\<lparr>connectReplyReceived := True\<rparr>"

definition handle_event :: "'w env \<Rightarrow> macros \<Rightarrow> 'w net \<Rightarrow> dev_event \<Rightarrow> 'w net" where
  "handle_event env m s ev =
     (case ev of
        MqttConnectEvent sessionPresent \<Rightarrow> onMqttConnect sessionPresent s
      | MqttDisconnectEvent reason \<Rightarrow> onMqttDisconnect reason s
      | MqttMessageEvent msg \<Rightarrow> onMqttDataReceivedCallback env m msg s)"

text \<open>
  \<^verbatim>\<open>_device->update()\<close>: the transport is pumped, and the callbacks it fires run in
  the order it fires them.
\<close>

definition device_update :: "'w env \<Rightarrow> macros \<Rightarrow> 'w net \<Rightarrow> 'w net" where
  "device_update env m s =
     (let s1 = perform env DevUpdate s
      in foldl (handle_event env m) s1 (update_events env (world s1)))"

subsection \<open>The reconnection protocol\<close>

text \<open>
  One round of the wait loop, lines 495-500: 50 ms pass, the transport is pumped, and
  the keep-alive callback runs when it is set.
\<close>

definition wait_step :: "'w env \<Rightarrow> macros \<Rightarrow> 'w net \<Rightarrow> 'w net" where
  "wait_step env m s =
     (let s1 = perform env (Delay 50) s;
          s2 = device_update env m s1
      in if keepAliveCallback s2 then perform env KeepAliveCallback s2 else s2)"

text \<open>
  The wait loop of line 493. Nothing in the source bounds the number of rounds: the loop
  ends when a callback has set the reply flag or the clock has reached the deadline, and
  \<open>None\<close> is the run where neither ever happens.
\<close>

partial_function (option) wait_for_reply ::
  "'w env \<Rightarrow> macros \<Rightarrow> u32 \<Rightarrow> 'w net \<Rightarrow> 'w net option" where
  "wait_for_reply env m deadline s =
     (if \<not> connectReplyReceived s \<and> millis env (world s) < deadline
      then wait_for_reply env m deadline (wait_step env m s)
      else Some s)"

text \<open>
  The start of a connection attempt, lines 475-489: the credentials when a user name is
  configured, the last will (at QoS 1, retained), the server, and the connect request.
\<close>

definition start_handshake :: "'w env \<Rightarrow> int \<Rightarrow> 'w net \<Rightarrow> 'w net" where
  "start_handshake env port s =
     (let s1 = s\<lparr>connectReplyReceived := False\<rparr>;
          s2 = (if mqttUser s1 = [] then s1
                else perform env (MqttSetCredentials (mqttUser s1) (mqttPass s1)) s1);
          s3 = perform env (SetWill (mqttConnectionStateTopic s2) 1 True (lastWillPayload s2)) s2;
          s4 = perform env (MqttSetServer (mqttBrokerAddr s3) port) s3
      in perform env MqttConnect s4)"

text \<open>Lines 475-501: the handshake is started and awaited for at most 60000 ms.\<close>

definition handshake :: "'w env \<Rightarrow> macros \<Rightarrow> int \<Rightarrow> 'w net \<Rightarrow> 'w net option" where
  "handshake env m port s =
     (let s1 = start_handshake env port s;
          deadline = millis env (world s1) + 60000
      in wait_for_reply env m deadline s1)"

text \<open>The replay of the init topics, lines 519-522.\<close>

definition publish_init_topics :: "'w env \<Rightarrow> macros \<Rightarrow> 'w net \<Rightarrow> 'w net" where
  "publish_init_topics env m s =
     foldl (\<lambda>st it. mqttPublish env m (fst it) (snd it) st) s (initTopics s)"

text \<open>
  Lines 506-510: the connection state is 1, 100 ms pass, the quiet window of 2000 ms
  opens and the message callback is installed.
\<close>

definition open_quiet_window :: "'w env \<Rightarrow> 'w net \<Rightarrow> 'w net" where
  "open_quiet_window env s =
     (let s1 = s\<lparr>mqttConnectionState := 1\<rparr>;
          s2 = perform env (Delay 100) s1;
          s3 = s2\<lparr>ignoreSubscriptionsTs := millis env (world s2) + 2000\<rparr>
      in perform env MqttOnMessage s3)"

text \<open>Lines 511-514: every subscribed topic, in the order of the list.\<close>

definition resubscribe :: "'w env \<Rightarrow> macros \<Rightarrow> 'w net \<Rightarrow> 'w net" where
  "resubscribe env m s =
     foldl (\<lambda>st topic. perform env (MqttSubscribe topic (MQTT_QOS_LEVEL m)) st)
       s (subscribedTopics s)"

text \<open>
  Lines 515-523: on the first connect the flag is cleared, the name of the transport is
  published and the init topics are replayed.
\<close>

definition first_connect :: "'w env \<Rightarrow> macros \<Rightarrow> 'w net \<Rightarrow> 'w net" where
  "first_connect env m s =
     (if firstConnect s then
        let f1 = s\<lparr>firstConnect := False\<rparr>;
            f2 = snd (publishString env m (maintenancePathPrefix f1)
                        (mqtt_topic_network_device m) (deviceName env (world f1)) f1)
        in publish_init_topics env m f2
      else s)"

text \<open>Lines 525-526: the connection state \<open>online\<close> and the local address.\<close>

definition publish_online :: "'w env \<Rightarrow> macros \<Rightarrow> 'w net \<Rightarrow> 'w net" where
  "publish_online env m s =
     (let s7 = snd (publishString env m (maintenancePathPrefix s)
                      (mqtt_topic_mqtt_connection_state m) ''online'' s)
      in snd (publishString env m (maintenancePathPrefix s7)
                (mqtt_topic_info_nuki_hub_ip m) (localIP env (world s7)) s7))"

text \<open>Lines 528-532: the connection state is 2 and the reconnect listeners run.\<close>

definition notify_reconnected :: "'w env \<Rightarrow> 'w net \<Rightarrow> 'w net" where
  "notify_reconnected env s =
     (let s9 = s\<lparr>mqttConnectionState := 2\<rparr>
      in foldl (\<lambda>st callback. perform env (ReconnectedCallback callback) st)
           s9 (reconnectedCallbacks s9))"

text \<open>The branch of the successful attempt, lines 505-532.\<close>

definition on_connected :: "'w env \<Rightarrow> macros \<Rightarrow> 'w net \<Rightarrow> 'w net" where
  "on_connected env m s =
     notify_reconnected env
       (publish_online env m
          (first_connect env m
             (resubscribe env m
                (open_quiet_window env s))))"

text \<open>The branch of the failed attempt, lines 536-540.\<close>

definition on_connect_failed :: "'w env \<Rightarrow> 'w net \<Rightarrow> 'w net" where
  "on_connect_failed env s =
     (let s1 = perform env PrintError s;
          s2 = s1\<lparr>mqttConnectionState := 0\<rparr>;
          s3 = s2\<lparr>nextReconnect := millis env (world s2) + 5000\<rparr>
      in perform env (MqttDisconnect True) s3)"

text \<open>
  One connection attempt, lines 473-541: the body of the loop of line 464 when the broker
  address is not empty.
\<close>

definition attempt :: "'w env \<Rightarrow> macros \<Rightarrow> int \<Rightarrow> 'w net \<Rightarrow> 'w net option" where
  "attempt env m port s =
     map_option
       (\<lambda>s2. if mqttConnected env (world s2) then on_connected env m s2
             else on_connect_failed env s2)
       (handshake env m port s)"

text \<open>
  The loop of line 464 with the \<^verbatim>\<open>return\<close> statements of lines 470 and 543. The
  result is the value returned and the state left behind; \<open>None\<close> is a run that never
  returns.
\<close>

partial_function (option) reconnect_loop ::
  "'w env \<Rightarrow> macros \<Rightarrow> int \<Rightarrow> 'w net \<Rightarrow> (bool \<times> 'w net) option" where
  "reconnect_loop env m port s =
     (if \<not> mqttConnected env (world s) \<and> millis env (world s) > nextReconnect s then
        if mqttBrokerAddr s = [] then
          Some (False, s\<lparr>nextReconnect := millis env (world s) + 5000\<rparr>)
        else Option.bind (attempt env m port s) (reconnect_loop env m port)
      else Some (mqttConnectionState s > 0, s))"

text \<open>\<^verbatim>\<open>reconnect()\<close>, lines 459-544.\<close>

definition reconnect :: "'w env \<Rightarrow> macros \<Rightarrow> 'w net \<Rightarrow> (bool \<times> 'w net) option" where
  "reconnect env m s =
     (let s0 = s\<lparr>mqttConnectionState := 0\<rparr>;
          port = getInt env (world s0) preference_mqtt_broker_port
      in reconnect_loop env m port s0)"

subsection \<open>The periodic tick\<close>

text \<open>
  Lines 275-302 of \<^verbatim>\<open>update()\<close>: the transport is down. The restart-on-disconnect
  watchdog comes first; otherwise the transport reconnects, and a critical failure
  writes the fallback marker and restarts.
\<close>

definition update_transport :: "'w env \<Rightarrow> 'w net \<Rightarrow> (unit, 'w) result" where
  "update_transport env s =
     (if \<not> isConnected env (world s) then
        if restartOnDisconnect s \<and> millis env (world s) > 60000 then
          Restart RestartOnDisconnectWatchdog s
        else
          let s1 = perform env DevReconnect s
          in case reconnect_status env (world s1) of
               CriticalFailure \<Rightarrow>
                 Restart NetworkDeviceCriticalFailure
                   (perform env (Delay 200) (s1\<lparr>WiFi_fallbackDetect := ''wifi_fallback''\<rparr>))
             | Success \<Rightarrow> Return () (s1\<lparr>WiFi_fallbackDetect := []\<rparr>)
             | Failure \<Rightarrow> Return () s1
      else Return () s)"

text \<open>Lines 322-331: the staged presence data.\<close>

definition update_presence :: "'w env \<Rightarrow> macros \<Rightarrow> 'w net \<Rightarrow> 'w net" where
  "update_presence env m s =
     (case presenceCsv s of
        None \<Rightarrow> s
      | Some csv \<Rightarrow>
          if length csv > 0
          then (snd (publishString env m (mqttPresencePrefix s) (mqtt_topic_presence m) csv s))
                 \<lparr>presenceCsv := None\<rparr>
          else s)"

text \<open>Lines 333-343: the signal strength, published when it has changed.\<close>

definition update_rssi :: "'w env \<Rightarrow> macros \<Rightarrow> u32 \<Rightarrow> 'w net \<Rightarrow> 'w net" where
  "update_rssi env m ts s =
     (if signalStrength env (world s) \<noteq> 127 \<and> rssiPublishInterval s > 0
         \<and> ts - lastRssiTs s > word_of_int (rssiPublishInterval s) then
        let s1 = s\<lparr>lastRssiTs := ts\<rparr>;
            rssi = signalStrength env (world s1)
        in if rssi \<noteq> lastRssi s1
           then (publishInt env m (maintenancePathPrefix s1) (mqtt_topic_wifi_rssi m)
                   (sint (signalStrength env (world s1))) s1)\<lparr>lastRssi := rssi\<rparr>
           else s1
      else s)"

text \<open>Lines 345-359: uptime and, once, the firmware version.\<close>

definition update_maintenance :: "'w env \<Rightarrow> macros \<Rightarrow> u32 \<Rightarrow> 'w net \<Rightarrow> 'w net" where
  "update_maintenance env m ts s =
     (if lastMaintenanceTs s = 0 \<or> ts - lastMaintenanceTs s > 30000 then
        let s1 = publishULong env m (maintenancePathPrefix s) (mqtt_topic_uptime m)
                   (ts div 1000 div 60) s;
            s2 = (if publishDebugInfo s1 then
                    let d1 = publishUInt env m (maintenancePathPrefix s1) (mqtt_topic_freeheap m)
                               (free_heap_size env (world s1)) s1;
                        d2 = snd (publishString env m (maintenancePathPrefix d1)
                                    (mqtt_topic_restart_reason_fw m)
                                    (getRestartReason env (world d1)) d1)
                    in snd (publishString env m (maintenancePathPrefix d2)
                              (mqtt_topic_restart_reason_esp m)
                              (getEspRestartReason env (world d2)) d2)
                  else s1);
            s3 = (if \<not> versionPublished s2
                  then (snd (publishString env m (maintenancePathPrefix s2)
                               (mqtt_topic_info_nuki_hub_version m) (NUKI_HUB_VERSION m) s2))
                         \<lparr>versionPublished := True\<rparr>
                  else s2)
        in s3\<lparr>lastMaintenanceTs := ts\<rparr>
      else s)"

text \<open>Lines 361-391: the daily look for a newer release.\<close>

definition update_check_updates :: "'w env \<Rightarrow> macros \<Rightarrow> u32 \<Rightarrow> 'w net \<Rightarrow> 'w net" where
  "update_check_updates env m ts s =
     (if getBool env (world s) preference_check_updates
         \<and> (lastUpdateCheckTs s = 0 \<or> ts - lastUpdateCheckTs s > 86400000) then
        let s1 = s\<lparr>lastUpdateCheckTs := ts\<rparr>;
            s2 = perform env HttpsGet s1
        in case https_tag_name env (world s2) of
             None \<Rightarrow> s2
           | Some tag \<Rightarrow>
               let s3 = s2\<lparr>latestVersion := tag\<rparr>;
                   s4 = snd (publishString env m (maintenancePathPrefix s3)
                               (mqtt_topic_info_nuki_hub_latest m) tag s3)
               in if latest_version_differs env (world s4)
                  then perform env (PutString preference_latest_version tag) s4
                  else s4
      else s)"

text \<open>
  One round of the loop of lines 393-411, for the entry \<open>(pin, t)\<close> of the debounce
  map: a pin whose time stamp is set and old enough is read and published.
\<close>

definition update_gpio_pin :: "'w env \<Rightarrow> macros \<Rightarrow> 'w net \<Rightarrow> u8 \<times> u32 \<Rightarrow> 'w net" where
  "update_gpio_pin env m s entry =
     (let pin = fst entry; t = snd entry
      in if t \<noteq> 0 \<and> millis env (world s) - t \<ge> GPIO_DEBOUNCE_TIME m then
           let s1 = s\<lparr>gpioTs := map (\<lambda>e. if fst e = pin then (pin, 0) else e) (gpioTs s)\<rparr>;
               pinState = (if digitalRead env (world s1) pin then 1 else 0)
           in publishInt env m (lockPath s1)
                (buildMqttPath [mqtt_topic_gpio_prefix m,
                   mqtt_topic_gpio_pin m @ to_string (unat pin), mqtt_topic_gpio_state m])
                pinState s1
         else s)"

text \<open>Lines 320-413: what a tick does once MQTT is connected.\<close>

definition update_connected :: "'w env \<Rightarrow> macros \<Rightarrow> u32 \<Rightarrow> 'w net \<Rightarrow> 'w net" where
  "update_connected env m ts s =
     (let s1 = s\<lparr>lastConnectedTs := ts\<rparr>;
          s2 = update_presence env m s1;
          s3 = update_rssi env m ts s2;
          s4 = update_maintenance env m ts s3;
          s5 = update_check_updates env m ts s4
      in foldl (update_gpio_pin env m) s5 (gpioTs s5))"

text \<open>
  \<^verbatim>\<open>update()\<close>, lines 264-414. \<open>None\<close> is a tick whose call of \<^verbatim>\<open>reconnect()\<close>
  never returns.
\<close>

definition update :: "'w env \<Rightarrow> macros \<Rightarrow> 'w net \<Rightarrow> (bool, 'w) result option" where
  "update env m s =
     (let ts = millis env (world s);
          s1 = device_update env m s
      in if \<not> mqttEnabled s1 then Some (Return True s1)
         else
           case update_transport env s1 of
             Restart reason s2 \<Rightarrow> Some (Restart reason s2)
           | Return _ s2 \<Rightarrow>
               if \<not> mqttConnected env (world s2) then
                 if networkTimeout s2 > 0
                    \<and> ts - lastConnectedTs s2 > word_of_int (networkTimeout s2 * 1000)
                    \<and> ts > 60000
                 then Some (Restart NetworkTimeoutWatchdog (perform env (Delay 200) s2))
                 else
                   case reconnect env m s2 of
                     None \<Rightarrow> None
                   | Some (success, s3) \<Rightarrow>
                       if \<not> success then Some (Return False s3)
                       else Some (Return True (update_connected env m ts s3))
               else Some (Return True (update_connected env m ts s2)))"

text \<open>
  A process lifetime as far as \<^verbatim>\<open>update()\<close> is concerned: its calls one after the
  other, each after whatever the rest of the firmware has done to the state in between
  (the functions \<open>gs\<close>). The result lists, for each call, the state before it and how
  it ended. A restart ends the lifetime.
\<close>

fun ticks ::
  "'w env \<Rightarrow> macros \<Rightarrow> ('w net \<Rightarrow> 'w net) list \<Rightarrow> 'w net
     \<Rightarrow> ('w net \<times> (bool, 'w) result) list option" where
  "ticks env m [] s = Some []"
| "ticks env m (g # gs) s =
     (case update env m (g s) of
        None \<Rightarrow> None
      | Some (Restart reason t) \<Rightarrow> Some [(g s, Restart reason t)]
      | Some (Return v t) \<Rightarrow>
          (case ticks env m gs t of
             None \<Rightarrow> None
           | Some rs \<Rightarrow> Some ((g s, Return v t) # rs)))"

subsection \<open>Device selection at boot\<close>

text \<open>
  The selection of lines 82-116, on the value of the hardware preference.
\<close>

definition select_device :: "int \<Rightarrow> NetworkDeviceType" where
  "select_device hardwareDetect =
     (if hardwareDetect = 1 then WiFi
      else if hardwareDetect = 2 then W5500
      else if hardwareDetect = 3 then W5500
      else if hardwareDetect = 4 then Olimex_LAN8720
      else if hardwareDetect = 5 then WT32_LAN8720
      else if hardwareDetect = 6 then M5STACK_PoESP32_Unit
      else if hardwareDetect = 7 then LilyGO_T_ETH_POE
      else WiFi)"

text \<open>
  \<^verbatim>\<open>setupDevice()\<close>, lines 52-117: the choice of the transport type. The construction
  of the transport object that follows (lines 119-151) is the choice of the environment
  and is not modelled.
\<close>

definition setupDevice :: "'w env \<Rightarrow> 'w net \<Rightarrow> (unit, 'w) result" where
  "setupDevice env s =
     (let hardwareDetect0 = getInt env (world s) preference_network_hardware;
          hardwareDetect = (if hardwareDetect0 = 0 then 1 else hardwareDetect0);
          s1 = (if hardwareDetect0 = 0
                then perform env (PutInt preference_network_hardware hardwareDetect) s else s)
      in if WiFi_fallbackDetect s1 = ''wifi_fallback'' then
           if getBool env (world s1) preference_network_wifi_fallback_disabled then
             Restart NetworkDeviceCriticalFailureNoWifiFallback
               (perform env (Sleep 5) (s1\<lparr>WiFi_fallbackDetect := []\<rparr>))
           else Return () (s1\<lparr>networkDeviceType := WiFi\<rparr>)
         else Return () (s1\<lparr>networkDeviceType := select_device hardwareDetect\<rparr>))"

text \<open>
  The fallback marker lies in memory that keeps its content over a restart (line 15);
  everything else starts anew. \<open>b\<close> is a state at boot after a restart in state \<open>t\<close>.
\<close>

definition survives_restart :: "'w net \<Rightarrow> 'w net \<Rightarrow> bool" where
  "survives_restart t b = (WiFi_fallbackDetect b = WiFi_fallbackDetect t)"

text \<open>The Wi-Fi-fallback-disabled preference as \<^verbatim>\<open>setupDevice\<close> reads it in line 68.\<close>

definition fallback_disabled_at_boot :: "'w env \<Rightarrow> 'w net \<Rightarrow> bool" where
  "fallback_disabled_at_boot env b =
     getBool env
       (world (if getInt env (world b) preference_network_hardware = 0
               then perform env (PutInt preference_network_hardware 1) b else b))
       preference_network_wifi_fallback_disabled"

subsection \<open>Reading results and traces\<close>

definition restart_reason :: "('r, 'w) result option \<Rightarrow> RestartReason option" where
  "restart_reason r = (case r of Some (Restart reason s) \<Rightarrow> Some reason | _ \<Rightarrow> None)"

definition result_state :: "('r, 'w) result \<Rightarrow> 'w net" where
  "result_state r = (case r of Return v s \<Rightarrow> s | Restart reason s \<Rightarrow> s)"

definition returned :: "('r, 'w) result option \<Rightarrow> 'r option" where
  "returned r = (case r of Some (Return v s) \<Rightarrow> Some v | _ \<Rightarrow> None)"

text \<open>
  The calls a pump of the transport can make through the callbacks it fires: the pump
  itself, a write to an output pin, a notification of a receiver.
\<close>

fun is_pump_call :: "call \<Rightarrow> bool" where
  "is_pump_call DevUpdate = True"
| "is_pump_call (DigitalWrite pin v) = True"
| "is_pump_call (ReceiverOnMqttDataReceived receiver topic payload idx) = True"
| "is_pump_call c = False"

fun is_subscribe :: "call \<Rightarrow> bool" where
  "is_subscribe (MqttSubscribe topic qos) = True"
| "is_subscribe c = False"

fun is_publish :: "call \<Rightarrow> bool" where
  "is_publish (MqttPublish path qos retain v) = True"
| "is_publish c = False"

fun is_receiver_call :: "call \<Rightarrow> bool" where
  "is_receiver_call (ReceiverOnMqttDataReceived receiver topic payload idx) = True"
| "is_receiver_call c = False"

text \<open>
  The two publications every successful connect makes (lines 525-526): the connection
  state \<open>online\<close> and the local address.
\<close>

fun is_status_publish :: "macros \<Rightarrow> string \<Rightarrow> call \<Rightarrow> bool" where
  "is_status_publish m prefix (MqttPublish path qos retain v) =
     (qos = MQTT_QOS_LEVEL m \<and> retain
      \<and> (path = buildMqttPath [prefix, mqtt_topic_mqtt_connection_state m] \<and> v = ''online''
         \<or> path = buildMqttPath [prefix, mqtt_topic_info_nuki_hub_ip m]))"
| "is_status_publish m prefix c = False"

text \<open>The publications among the calls between two states.\<close>

definition publishes_since :: "'w net \<Rightarrow> 'w net \<Rightarrow> call list" where
  "publishes_since s t = filter is_publish (calls_since s t)"

text \<open>The retained publication of an entry of the init topic map (line 521).\<close>

definition init_publish :: "macros \<Rightarrow> string \<times> string \<Rightarrow> call" where
  "init_publish m it = MqttPublish (fst it) (MQTT_QOS_LEVEL m) True (snd it)"

text \<open>
  The variables that neither a pump of the transport nor \<^verbatim>\<open>reconnect()\<close> writes:
  all but the world, the trace, the reply flag, the connection state, the retry
  deadline, the end of the quiet window and the first-connect flag.
\<close>

definition configuration where
  "configuration s =
     (WiFi_fallbackDetect s, networkDeviceType s, mqttEnabled s, restartOnDisconnect s,
      networkTimeout s, lastConnectedTs s, keepAliveCallback s, mqttBrokerAddr s, mqttUser s,
      mqttPass s, mqttConnectionStateTopic s, lastWillPayload s, maintenancePathPrefix s,
      lockPath s, mqttPresencePrefix s, subscribedTopics s, initTopics s, mqttReceivers s,
      reconnectedCallbacks s, presenceCsv s, rssiPublishInterval s, lastRssiTs s, lastRssi s,
      lastMaintenanceTs s, publishDebugInfo s, versionPublished s, lastUpdateCheckTs s,
      latestVersion s, gpioTs s)"

text \<open>The variables of the session that \<^verbatim>\<open>reconnect()\<close> writes and a pump does not.\<close>

definition session_state where
  "session_state s =
     (mqttConnectionState s, nextReconnect s, ignoreSubscriptionsTs s, firstConnect s)"

text \<open>The trace of \<open>t\<close> continues the trace of \<open>s\<close> with calls that satisfy \<open>P\<close>.\<close>

definition continues :: "(call \<Rightarrow> bool) \<Rightarrow> 'w net \<Rightarrow> 'w net \<Rightarrow> bool" where
  "continues P s t = (take (length (trace s)) (trace t) = trace s \<and> list_all P (calls_since s t))"

text \<open>
  What a pump of the transport can do to the state: it makes pump calls, and it leaves
  the configuration and the session variables as they are.
\<close>

definition pump_step :: "'w net \<Rightarrow> 'w net \<Rightarrow> bool" where
  "pump_step s t =
     (configuration t = configuration s \<and> session_state t = session_state s
      \<and> continues is_pump_call s t)"

text \<open>
  The calls of a handshake (lines 475-501): the credentials, the last will, the server,
  the connect request, and in the wait loop the delay, the pump with what it fires and
  the keep-alive callback.
\<close>

fun is_handshake_call :: "call \<Rightarrow> bool" where
  "is_handshake_call (MqttSetCredentials user pass) = True"
| "is_handshake_call (SetWill topic qos retain v) = True"
| "is_handshake_call (MqttSetServer addr port) = True"
| "is_handshake_call MqttConnect = True"
| "is_handshake_call (Delay n) = True"
| "is_handshake_call KeepAliveCallback = True"
| "is_handshake_call c = is_pump_call c"

text \<open>
  What a handshake can do to the state: it makes handshake calls and writes the reply
  flag; the configuration and the session variables stay as they are.
\<close>

definition handshake_step :: "'w net \<Rightarrow> 'w net \<Rightarrow> bool" where
  "handshake_step s t =
     (configuration t = configuration s \<and> session_state t = session_state s
      \<and> continues is_handshake_call s t)"

text \<open>
  Between \<open>s\<close> and \<open>t\<close> exactly the calls \<open>cs\<close> were made, and the configuration is
  the same.
\<close>

definition emits :: "call list \<Rightarrow> 'w net \<Rightarrow> 'w net \<Rightarrow> bool" where
  "emits cs s t = (trace t = trace s @ cs \<and> configuration t = configuration s)"

text \<open>
  The calls of the branch of the successful attempt, in their order, for the name of
  the transport \<open>dn\<close> and the local address \<open>ip\<close> that the transport reports.
\<close>

definition connect_calls :: "macros \<Rightarrow> 'w net \<Rightarrow> string \<Rightarrow> string \<Rightarrow> call list" where
  "connect_calls m s dn ip =
     Delay 100 # MqttOnMessage
     # map (\<lambda>topic. MqttSubscribe topic (MQTT_QOS_LEVEL m)) (subscribedTopics s)
     @ (if firstConnect s
        then MqttPublish (buildMqttPath [maintenancePathPrefix s, mqtt_topic_network_device m])
               (MQTT_QOS_LEVEL m) True dn
             # map (init_publish m) (initTopics s)
        else [])
     @ [MqttPublish (buildMqttPath [maintenancePathPrefix s, mqtt_topic_mqtt_connection_state m])
          (MQTT_QOS_LEVEL m) True ''online'',
        MqttPublish (buildMqttPath [maintenancePathPrefix s, mqtt_topic_info_nuki_hub_ip m])
          (MQTT_QOS_LEVEL m) True ip]
     @ map ReconnectedCallback (reconnectedCallbacks s)"

text \<open>
  Between \<open>b\<close> and \<open>a\<close> the init topics were replayed, once: the first-connect flag
  went from set to cleared, and the publications are the name of the transport, the
  entries of the init topic map in the order of the map, each retained, and after them
  only connection states and local addresses.
\<close>

definition first_replay :: "macros \<Rightarrow> 'w net \<Rightarrow> 'w net \<Rightarrow> bool" where
  "first_replay m b a =
     (firstConnect b \<and> \<not> firstConnect a
      \<and> (\<exists>dn rest.
            publishes_since b a =
              MqttPublish (buildMqttPath [maintenancePathPrefix b, mqtt_topic_network_device m])
                (MQTT_QOS_LEVEL m) True dn
              # map (init_publish m) (initTopics b) @ rest
            \<and> list_all (is_status_publish m (maintenancePathPrefix b)) rest))"

text \<open>
  Between \<open>b\<close> and \<open>a\<close> the init topics were not replayed: the first-connect flag is
  as it was; while it is set nothing is published, and once it is cleared only
  connection states and local addresses are.
\<close>

definition no_replay :: "macros \<Rightarrow> 'w net \<Rightarrow> 'w net \<Rightarrow> bool" where
  "no_replay m b a =
     (firstConnect a = firstConnect b
      \<and> (if firstConnect b then publishes_since b a = []
         else list_all (is_status_publish m (maintenancePathPrefix b)) (publishes_since b a)))"

text \<open>What a part of \<^verbatim>\<open>reconnect()\<close> can do to the state.\<close>

definition reconnect_step :: "macros \<Rightarrow> 'w net \<Rightarrow> 'w net \<Rightarrow> bool" where
  "reconnect_step m s t =
     (configuration t = configuration s \<and> continues (\<lambda>c. True) s t
      \<and> (no_replay m s t \<or> first_replay m s t))"

text \<open>
  A process lifetime as far as \<^verbatim>\<open>reconnect()\<close> is concerned: its calls one after the
  other, each after whatever the rest of the firmware has done to the state in between
  (the functions \<open>gs\<close>). The result lists, for each call, the state before it and the
  state after it.
\<close>

fun reconnects ::
  "'w env \<Rightarrow> macros \<Rightarrow> ('w net \<Rightarrow> 'w net) list \<Rightarrow> 'w net \<Rightarrow> ('w net \<times> 'w net) list option" where
  "reconnects env m [] s = Some []"
| "reconnects env m (g # gs) s =
     (case reconnect env m (g s) of
        None \<Rightarrow> None
      | Some (r, a) \<Rightarrow>
          (case reconnects env m gs a of
             None \<Rightarrow> None
           | Some runs \<Rightarrow> Some ((g s, a) # runs)))"

text \<open>
  The calls by which a completed connect shows in the trace: the installation of the
  message callback (line 510), made once by every successful attempt and by nothing
  else, and the subscribe calls (line 513).
\<close>

fun is_resubscribe_call :: "call \<Rightarrow> bool" where
  "is_resubscribe_call MqttOnMessage = True"
| "is_resubscribe_call (MqttSubscribe topic qos) = True"
| "is_resubscribe_call c = False"

text \<open>
  One round of resubscription: the installation of the message callback, then one
  subscribe call for every entry of the subscribed topic list, in the order of the list,
  at \<^verbatim>\<open>MQTT_QOS_LEVEL\<close>.
\<close>

definition resubscribe_round :: "macros \<Rightarrow> 'w net \<Rightarrow> call list" where
  "resubscribe_round m s =
     MqttOnMessage # map (\<lambda>topic. MqttSubscribe topic (MQTT_QOS_LEVEL m)) (subscribedTopics s)"

text \<open>
  Between \<open>s\<close> and \<open>t\<close> the configuration has stayed the same and \<open>k\<close> connects were
  completed, each with one full round of resubscription and no subscribe call besides.
\<close>

definition resubscribed :: "macros \<Rightarrow> nat \<Rightarrow> 'w net \<Rightarrow> 'w net \<Rightarrow> bool" where
  "resubscribed m k s t =
     (configuration t = configuration s \<and> continues (\<lambda>c. True) s t
      \<and> filter is_resubscribe_call (calls_since s t) = concat (replicate k (resubscribe_round m s)))"

text \<open>
  The topic \<^verbatim>\<open>initialize()\<close> subscribes to for an output pin, lines 253-254: the state
  path of the pin under the lock path.
\<close>

definition gpio_state_topic :: "macros \<Rightarrow> 'w net \<Rightarrow> nat \<Rightarrow> string" where
  "gpio_state_topic m s pin =
     buildMqttPath [lockPath s,
       buildMqttPath [mqtt_topic_gpio_prefix m, mqtt_topic_gpio_pin m @ to_string pin,
                      mqtt_topic_gpio_state m]]"

subsection \<open>A scripted environment\<close>

text \<open>
  A small concrete world on which the functions above run: a clock that only
  \<^verbatim>\<open>delay\<close> and \<^verbatim>\<open>sleep\<close> advance, a transport whose link is up or down, and a
  broker that accepts or refuses. A connect request queues the callback the transport
  fires at its next pump.
\<close>

record sim =
  clock :: u32
  link :: bool
  reconnectResult :: ReconnectStatus
  brokerUp :: bool
  session :: bool
  pending :: "dev_event list"
  fired :: "dev_event list"
  outputPins :: "int list"
  hardwarePref :: int
  fallbackDisabled :: bool

fun sim_exec :: "call \<Rightarrow> sim \<Rightarrow> sim" where
  "sim_exec (Delay n) w = w\<lparr>clock := clock w + of_nat n\<rparr>"
| "sim_exec (Sleep n) w = w\<lparr>clock := clock w + of_nat (n * 1000)\<rparr>"
| "sim_exec DevUpdate w = w\<lparr>fired := pending w, pending := []\<rparr>"
| "sim_exec MqttConnect w =
     (if brokerUp w then w\<lparr>session := True, pending := pending w @ [MqttConnectEvent False]\<rparr>
      else w\<lparr>pending := pending w @ [MqttDisconnectEvent 7]\<rparr>)"
| "sim_exec (MqttDisconnect force) w = w\<lparr>session := False\<rparr>"
| "sim_exec DevReconnect w = w\<lparr>link := (reconnectResult w = Success)\<rparr>"
| "sim_exec (PutInt k v) w = (if k = preference_network_hardware then w\<lparr>hardwarePref := v\<rparr> else w)"
| "sim_exec c w = w"

definition sim_env :: "sim env" where
  "sim_env =
     \<lparr>exec = sim_exec, millis = clock, isConnected = link, mqttConnected = session,
      update_events = fired, reconnect_status = reconnectResult,
      publish_result = (\<lambda>w. if session w then 1 else 0),
      signalStrength = (\<lambda>w. 127), localIP = (\<lambda>w. ''192.168.0.10''),
      deviceName = (\<lambda>w. ''Built-in Wi-Fi''),
      getPinRole = (\<lambda>w pin. if pin \<in> set (outputPins w) then GeneralOutput else Disabled),
      digitalRead = (\<lambda>w pin. False),
      getInt = (\<lambda>w k. if k = preference_network_hardware then hardwarePref w
                       else if k = preference_mqtt_broker_port then 1883 else 0),
      getBool = (\<lambda>w k. k = preference_network_wifi_fallback_disabled \<and> fallbackDisabled w),
      free_heap_size = (\<lambda>w. 0), getRestartReason = (\<lambda>w. []),
      getEspRestartReason = (\<lambda>w. []), https_tag_name = (\<lambda>w. None),
      latest_version_differs = (\<lambda>w. False)\<rparr>"

definition sim_macros :: macros where
  "sim_macros =
     \<lparr>MQTT_QOS_LEVEL = 1, GPIO_DEBOUNCE_TIME = 200, NUKI_HUB_VERSION = ''8.0'',
      mqtt_topic_mqtt_connection_state = ''/mqtt/connectionState'',
      mqtt_topic_network_device = ''/network/device'',
      mqtt_topic_info_nuki_hub_ip = ''/info/nukiHubIp'',
      mqtt_topic_info_nuki_hub_version = ''/info/nukiHubVersion'',
      mqtt_topic_info_nuki_hub_latest = ''/info/nukiHubLatest'',
      mqtt_topic_presence = ''/presence/devices'',
      mqtt_topic_wifi_rssi = ''/wifiRssi'',
      mqtt_topic_uptime = ''/uptime'',
      mqtt_topic_freeheap = ''/freeHeap'',
      mqtt_topic_restart_reason_fw = ''/restartReasonNukiHub'',
      mqtt_topic_restart_reason_esp = ''/restartReasonNukiEsp'',
      mqtt_topic_gpio_prefix = ''/gpio'',
      mqtt_topic_gpio_pin = ''/pin_'',
      mqtt_topic_gpio_state = ''/state''\<rparr>"

definition sim_world :: sim where
  "sim_world =
     \<lparr>clock = 70000, link = True, reconnectResult = Failure, brokerUp = True, session = False,
      pending = [], fired = [], outputPins = [17], hardwarePref = 4, fallbackDisabled = False\<rparr>"

text \<open>
  A state of the network layer as it is after \<^verbatim>\<open>initialize()\<close>, before the first
  connect, with one subscription, one init topic, one receiver and one reconnect
  listener.
\<close>

definition sim_net :: "sim \<Rightarrow> sim net" where
  "sim_net w =
     \<lparr>world = w, trace = [], WiFi_fallbackDetect = [], networkDeviceType = WiFi,
      mqttEnabled = True, restartOnDisconnect = False, networkTimeout = 30,
      lastConnectedTs = 0, mqttConnectionState = 0, nextReconnect = 0,
      connectReplyReceived = False, keepAliveCallback = False, ignoreSubscriptionsTs = 0,
      firstConnect = True, mqttBrokerAddr = ''broker'', mqttUser = [], mqttPass = [],
      mqttConnectionStateTopic = ''nuki/mqtt/connectionState'', lastWillPayload = ''offline'',
      maintenancePathPrefix = ''nuki'', lockPath = ''nuki'', mqttPresencePrefix = ''nuki'',
      subscribedTopics = [''nuki/gpio/pin_17/state''],
      initTopics = [(''nuki/lock/action'', ''--'')],
      mqttReceivers = [0], reconnectedCallbacks = [0], presenceCsv = None,
      rssiPublishInterval = 60000, lastRssiTs = 0, lastRssi = 127, lastMaintenanceTs = 0,
      publishDebugInfo = False, versionPublished = False, lastUpdateCheckTs = 0,
      latestVersion = [], gpioTs = []\<rparr>"

text \<open>The broker drops the session and ten seconds pass.\<close>

definition sim_drop :: "sim net \<Rightarrow> sim net" where
  "sim_drop s = s\<lparr>world := (world s)\<lparr>session := False, clock := clock (world s) + 10000\<rparr>\<rparr>"

text \<open>
  The scripted state after a first successful \<^verbatim>\<open>reconnect()\<close>, and after a second one
  that follows a drop of the session.
\<close>

definition sim_after_first :: "sim net" where
  "sim_after_first =
     (sim_net sim_world)
       \<lparr>world := sim_world\<lparr>session := True, clock := 70150, fired := [MqttConnectEvent False]\<rparr>,
        trace := [SetWill ''nuki/mqtt/connectionState'' 1 True ''offline'',
                  MqttSetServer ''broker'' 1883, MqttConnect, Delay 50, DevUpdate,
                  Delay 100, MqttOnMessage, MqttSubscribe ''nuki/gpio/pin_17/state'' 1,
                  MqttPublish ''nuki/network/device'' 1 True ''Built-in Wi-Fi'',
                  MqttPublish ''nuki/lock/action'' 1 True ''--'',
                  MqttPublish ''nuki/mqtt/connectionState'' 1 True ''online'',
                  MqttPublish ''nuki/info/nukiHubIp'' 1 True ''192.168.0.10'',
                  ReconnectedCallback 0],
        connectReplyReceived := True, mqttConnectionState := 2,
        ignoreSubscriptionsTs := 72150, firstConnect := False\<rparr>"

definition sim_after_second :: "sim net" where
  "sim_after_second =
     sim_after_first
       \<lparr>world := sim_world\<lparr>session := True, clock := 80300, fired := [MqttConnectEvent False]\<rparr>,
        trace := trace sim_after_first @
                 [SetWill ''nuki/mqtt/connectionState'' 1 True ''offline'',
                  MqttSetServer ''broker'' 1883, MqttConnect, Delay 50, DevUpdate,
                  Delay 100, MqttOnMessage, MqttSubscribe ''nuki/gpio/pin_17/state'' 1,
                  MqttPublish ''nuki/mqtt/connectionState'' 1 True ''online'',
                  MqttPublish ''nuki/info/nukiHubIp'' 1 True ''192.168.0.10'',
                  ReconnectedCallback 0],
        ignoreSubscriptionsTs := 82300\<rparr>"

text \<open>
  The scripted state right after a connect has been completed that started at the given
  time, the passing of \<open>d\<close> milliseconds, and a scripted state whose only output pin is
  pin 100, inside a quiet window.
\<close>

definition sim_connected_at :: "u32 \<Rightarrow> sim net" where
  "sim_connected_at c =
     on_connected sim_env sim_macros (sim_net (sim_world\<lparr>clock := c, session := True\<rparr>))"

definition sim_wait :: "u32 \<Rightarrow> sim net \<Rightarrow> sim net" where
  "sim_wait d s = s\<lparr>world := (world s)\<lparr>clock := clock (world s) + d\<rparr>\<rparr>"

definition sim_pin_100 :: "sim net" where
  "sim_pin_100 = (sim_net (sim_world\<lparr>outputPins := [100]\<rparr>))\<lparr>ignoreSubscriptionsTs := 71000\<rparr>"

section \<open>Properties\<close>

subsection \<open>Calls and traces\<close>

lemma configuration_perform: "configuration (perform env c s) = configuration s"
  by (simp add: configuration_def perform_def)

lemma session_state_perform: "session_state (perform env c s) = session_state s"
  by (simp add: session_state_def perform_def)

lemma trace_perform: "trace (perform env c s) = trace s @ [c]"
  by (simp add: perform_def)

lemma continues_iff: "continues P s t \<longleftrightarrow> (\<exists>d. trace t = trace s @ d \<and> list_all P d)"
  unfolding continues_def calls_since_def
  by (metis append_eq_conv_conj append_take_drop_id)

lemma continues_refl: "continues P s s"
  by (simp add: continues_iff)

lemma continues_trans: "continues P s t \<Longrightarrow> continues P t u \<Longrightarrow> continues P s u"
  by (auto simp: continues_iff)

lemma continues_perform: "P c \<Longrightarrow> continues P s (perform env c s)"
  by (simp add: continues_iff trace_perform)

lemma continues_mono: "continues P s t \<Longrightarrow> (\<And>c. P c \<Longrightarrow> Q c) \<Longrightarrow> continues Q s t"
  by (auto simp: continues_iff list_all_iff)

lemma continues_same_trace: "trace t = trace s \<Longrightarrow> continues P s t"
  by (simp add: continues_iff)

lemma calls_since_trans:
  "continues P s t \<Longrightarrow> continues Q t u \<Longrightarrow> calls_since s u = calls_since s t @ calls_since t u"
  by (auto simp: continues_iff calls_since_def)

lemma calls_since_perform: "calls_since s (perform env c s) = [c]"
  by (simp add: calls_since_def trace_perform)

subsection \<open>Pumping the transport\<close>

lemma trace_foldl_perform:
  "trace (foldl (\<lambda>st x. perform env (f x) st) s xs) = trace s @ map f xs"
  by (induction xs arbitrary: s) (simp_all add: trace_perform)

lemma configuration_foldl_perform:
  "configuration (foldl (\<lambda>st x. perform env (f x) st) s xs) = configuration s"
  by (induction xs arbitrary: s) (simp_all add: configuration_perform)

lemma session_state_foldl_perform:
  "session_state (foldl (\<lambda>st x. perform env (f x) st) s xs) = session_state s"
  by (induction xs arbitrary: s) (simp_all add: session_state_perform)

lemma pump_step_refl: "pump_step s s"
  by (simp add: pump_step_def continues_refl)

lemma pump_step_trans: "pump_step s t \<Longrightarrow> pump_step t u \<Longrightarrow> pump_step s u"
  by (auto simp: pump_step_def intro: continues_trans)

lemma pump_step_perform: "is_pump_call c \<Longrightarrow> pump_step s (perform env c s)"
  by (simp add: pump_step_def configuration_perform session_state_perform continues_perform)

lemma pump_step_foldl_perform:
  "(\<And>x. is_pump_call (f x)) \<Longrightarrow> pump_step s (foldl (\<lambda>st x. perform env (f x) st) s xs)"
  by (simp add: pump_step_def configuration_foldl_perform session_state_foldl_perform
      continues_iff trace_foldl_perform list_all_iff)

lemma pump_step_parseGpioTopics: "pump_step s (parseGpioTopics env m topic payload s)"
  by (simp add: parseGpioTopics_def Let_def pump_step_refl pump_step_perform)

lemma pump_step_onMqttDataReceived:
  "pump_step s (onMqttDataReceived env m topic payload len idx tot s)"
proof -
  let ?s1 = "parseGpioTopics env m topic payload s"
  have "pump_step ?s1 (foldl (\<lambda>st receiver.
          perform env (ReceiverOnMqttDataReceived receiver topic payload idx) st)
        ?s1 (mqttReceivers ?s1))"
    by (rule pump_step_foldl_perform) simp
  then show ?thesis
    unfolding onMqttDataReceived_def Let_def
    using pump_step_parseGpioTopics [of s env m topic payload]
    by (auto intro: pump_step_trans)
qed

lemma pump_step_reply: "configuration t = configuration s \<Longrightarrow> session_state t = session_state s \<Longrightarrow> trace t = trace s \<Longrightarrow> pump_step s t"
  by (simp add: pump_step_def continues_same_trace)

lemma pump_step_handle_event: "pump_step s (handle_event env m s ev)"
  by (cases ev) (simp_all add: handle_event_def onMqttConnect_def onMqttDisconnect_def
      onMqttDataReceivedCallback_def pump_step_onMqttDataReceived pump_step_reply
      configuration_def session_state_def)

lemma pump_step_foldl_handle_event: "pump_step s (foldl (handle_event env m) s evs)"
  by (induction evs arbitrary: s)
     (auto simp: pump_step_refl intro: pump_step_trans [OF pump_step_handle_event])

lemma pump_step_device_update: "pump_step s (device_update env m s)"
  unfolding device_update_def Let_def
  by (rule pump_step_trans [OF pump_step_perform pump_step_foldl_handle_event]) simp

subsection \<open>The topic path builder\<close>

lemma copy_path_append: "copy_path outPath path = outPath @ path"
  by (induction path arbitrary: outPath) simp_all

lemma foldl_build_step_later:
  "0 < n \<Longrightarrow> foldl build_step (out, n) paths = (out @ concat (map joined paths), n + length paths)"
  by (induction paths arbitrary: out n) (simp_all add: build_step_def joined_def copy_path_append)

lemma buildMqttPath_Nil: "buildMqttPath [] = []"
  by (simp add: buildMqttPath_def)

lemma buildMqttPath_Cons: "buildMqttPath (p # ps) = p @ concat (map joined ps)"
  by (simp add: buildMqttPath_def build_step_def copy_path_append foldl_build_step_later)

lemma buildMqttPath_single: "buildMqttPath [p] = p"
  by (simp add: buildMqttPath_Cons)

lemma buildMqttPath_pair: "buildMqttPath [p, q] = p @ joined q"
  by (simp add: buildMqttPath_Cons)

text \<open>
  C5, as the claim states it, fails. Between \<open>a\<close> and \<open>/b\<close> the builder inserts no
  separator at all, and between \<open>a/\<close> and \<open>b\<close> it inserts one although the first
  fragment already ends with one, so that two separators stand between the fragments.
\<close>

theorem buildMqttPath_one_separator_counterexample:
  "inserted_separators [''a'', ''/b''] \<noteq> length [''a'', ''/b''] - 1
   \<and> buildMqttPath [''a/'', ''b''] = ''a//b''"
  by (simp add: inserted_separators_def buildMqttPath_Cons joined_def cnth_def NUL_def)

text \<open>
  C5, amended: the builder copies every fragment unchanged and in order, and writes
  exactly one \<open>/\<close> before a fragment that is not the first one unless that fragment
  already starts with \<open>/\<close>, in which case it writes none; separators at the end of a
  fragment are kept as they are. Joining its own output again, as a single fragment,
  gives the same path.
\<close>

theorem buildMqttPath_joins:
  "buildMqttPath [] = []
   \<and> buildMqttPath (p # ps) =
       p @ concat (map (\<lambda>q. if cnth q 0 \<noteq> CHR ''/'' then CHR ''/'' # q else q) ps)
   \<and> buildMqttPath [buildMqttPath paths] = buildMqttPath paths"
proof -
  have "joined = (\<lambda>q. if cnth q 0 \<noteq> CHR ''/'' then CHR ''/'' # q else q)"
    by (rule ext) (simp add: joined_def)
  then show ?thesis
    using buildMqttPath_Cons [of p ps] by (simp add: buildMqttPath_Nil buildMqttPath_single)
qed

theorem buildMqttPath_joins_witness:
  "buildMqttPath [''nuki'', ''/gpio'', ''pin_4'', ''state/''] = ''nuki/gpio/pin_4/state/''
   \<and> buildMqttPath [buildMqttPath [''nuki'', ''/gpio'']] = ''nuki/gpio''"
  using buildMqttPath_joins [of "''nuki''" "[''/gpio'', ''pin_4'', ''state/'']" "[''nuki'', ''/gpio'']"]
        buildMqttPath_joins [of "''nuki''" "[''/gpio'']" "[]"]
  by (simp add: cnth_def NUL_def)

subsection \<open>The periodic tick\<close>

lemma pump_step_mqttEnabled: "pump_step s t \<Longrightarrow> mqttEnabled t = mqttEnabled s"
  by (simp add: pump_step_def configuration_def)

lemma pump_step_watchdog_fields:
  "pump_step s t \<Longrightarrow>
     networkTimeout t = networkTimeout s \<and> lastConnectedTs t = lastConnectedTs s
     \<and> restartOnDisconnect t = restartOnDisconnect s"
  by (simp add: pump_step_def configuration_def)

lemma update_mqtt_disabled:
  "\<not> mqttEnabled s \<Longrightarrow> update env m s = Some (Return True (device_update env m s))"
  using pump_step_mqttEnabled [OF pump_step_device_update, of env m s]
  by (simp add: update_def Let_def)

lemma ticks_mqtt_disabled:
  assumes "\<forall>g \<in> set gs. \<forall>s. mqttEnabled (g s) = mqttEnabled s"
    and "\<not> mqttEnabled s"
  shows "\<exists>rs. ticks env m gs s = Some rs \<and> length rs = length gs
           \<and> (\<forall>(b, r) \<in> set rs. \<not> mqttEnabled b \<and> r = Return True (device_update env m b))"
  using assms
proof (induction gs arbitrary: s)
  case Nil
  then show ?case by simp
next
  case (Cons g gs)
  have off: "\<not> mqttEnabled (g s)"
    using Cons.prems by simp
  then have "\<not> mqttEnabled (device_update env m (g s))"
    using pump_step_mqttEnabled [OF pump_step_device_update, of env m "g s"] by simp
  with Cons.IH [of "device_update env m (g s)"] Cons.prems(1)
  obtain rs where rs: "ticks env m gs (device_update env m (g s)) = Some rs"
    "length rs = length gs"
    "\<forall>(b, r) \<in> set rs. \<not> mqttEnabled b \<and> r = Return True (device_update env m b)"
    by auto
  have "ticks env m (g # gs) s = Some ((g s, Return True (device_update env m (g s))) # rs)"
    using off rs(1) by (simp add: update_mqtt_disabled)
  with off rs(2,3) show ?case by simp
qed

text \<open>
  C10. After \<^verbatim>\<open>disableMqtt()\<close>, in a lifetime where nothing enables MQTT again, every
  later call of \<^verbatim>\<open>update()\<close>, whatever else happens in between, finds MQTT disabled,
  returns \<open>true\<close> and leaves the state that the pump of the transport leaves. No call
  restarts the device. A pump leaves the configuration and the session variables as they
  are, and the only calls it makes are the pump itself and what the callbacks it fires
  do (a write to an output pin, a notification of a receiver): no reconnect of the
  transport, no connect request, no delay before a restart, no publication.
\<close>

theorem update_after_disableMqtt:
  assumes "\<forall>g \<in> set gs. \<forall>s. mqttEnabled (g s) = mqttEnabled s"
  shows "\<exists>rs. ticks env m gs (disableMqtt env s) = Some rs \<and> length rs = length gs
           \<and> (\<forall>(b, r) \<in> set rs.
                 \<not> mqttEnabled b \<and> r = Return True (device_update env m b)
                 \<and> configuration (device_update env m b) = configuration b
                 \<and> session_state (device_update env m b) = session_state b
                 \<and> list_all is_pump_call (calls_since b (device_update env m b)))"
proof -
  have "\<not> mqttEnabled (disableMqtt env s)"
    by (simp add: disableMqtt_def)
  from ticks_mqtt_disabled [OF assms this, of env m]
  obtain rs where rs: "ticks env m gs (disableMqtt env s) = Some rs" "length rs = length gs"
    "\<forall>(b, r) \<in> set rs. \<not> mqttEnabled b \<and> r = Return True (device_update env m b)"
    by blast
  have "configuration (device_update env m b) = configuration b
        \<and> session_state (device_update env m b) = session_state b
        \<and> list_all is_pump_call (calls_since b (device_update env m b))" for b :: "'a net"
    using pump_step_device_update [of b env m] by (simp add: pump_step_def continues_def)
  with rs show ?thesis by fastforce
qed

text \<open>
  Two ticks after \<^verbatim>\<open>disableMqtt()\<close> in the scripted environment, with a subscription
  registered in between: both return \<open>true\<close>, and each makes the one call that pumps
  the transport.
\<close>

theorem update_after_disableMqtt_witness:
  "map_option (map (\<lambda>(b, r). (r = Return True (device_update sim_env sim_macros b),
                               calls_since b (result_state r))))
     (ticks sim_env sim_macros [id, subscribe ''nuki'' ''/lock/action'']
        (disableMqtt sim_env (sim_net sim_world)))
   = Some [(True, [DevUpdate]), (True, [DevUpdate])]"
proof -
  let ?gs = "[id, subscribe ''nuki'' ''/lock/action''] :: (sim net \<Rightarrow> sim net) list"
  have g: "\<forall>g \<in> set ?gs. \<forall>s. mqttEnabled (g s) = mqttEnabled s"
    by (simp add: subscribe_def)
  from update_after_disableMqtt [OF g, of sim_env sim_macros "sim_net sim_world"]
  have "ticks sim_env sim_macros ?gs (disableMqtt sim_env (sim_net sim_world)) \<noteq> None"
    by fastforce
  then show ?thesis
    by (simp add: update_def Let_def device_update_def perform_def disableMqtt_def subscribe_def
        sim_net_def sim_world_def sim_env_def result_state_def calls_since_def)
qed

text \<open>
  C1, amended: with MQTT enabled, the transport connected and MQTT not connected after
  the pump, a network timeout of 30 seconds and the last tick with MQTT connected 46000
  ms ago, \<^verbatim>\<open>update()\<close> restarts the device with the network-timeout reason whenever
  the uptime read at the start of the tick is above 60000 ms, the grace period of line
  306.
\<close>

theorem network_timeout_restart:
  assumes "mqttEnabled s"
    and "isConnected env (world (device_update env m s))"
    and "\<not> mqttConnected env (world (device_update env m s))"
    and "networkTimeout s = 30"
    and "millis env (world s) - lastConnectedTs s = 46000"
    and "millis env (world s) > 60000"
  shows "update env m s =
           Some (Restart NetworkTimeoutWatchdog (perform env (Delay 200) (device_update env m s)))"
proof -
  let ?s1 = "device_update env m s"
  have p: "pump_step s ?s1" by (rule pump_step_device_update)
  have "(46000 :: u32) > word_of_int (30 * 1000)" by simp
  then show ?thesis
    using assms pump_step_mqttEnabled [OF p] pump_step_watchdog_fields [OF p]
    by (simp add: update_def Let_def update_transport_def)
qed

text \<open>The scenario at an uptime of 70000 ms.\<close>

theorem network_timeout_restart_witness:
  "restart_reason (update sim_env sim_macros ((sim_net sim_world)\<lparr>lastConnectedTs := 24000\<rparr>))
     = Some NetworkTimeoutWatchdog"
  using network_timeout_restart [of "(sim_net sim_world)\<lparr>lastConnectedTs := 24000\<rparr>" sim_env sim_macros]
  by (simp add: restart_reason_def device_update_def perform_def sim_net_def sim_world_def sim_env_def)

text \<open>
  C1, as the claim states it, fails. At an uptime of 45000 ms the grace period has not
  passed: the tick does not restart the device. It goes on to \<^verbatim>\<open>reconnect()\<close>, whose
  attempt the broker of this scenario refuses, and returns \<open>false\<close>.
\<close>

theorem network_timeout_grace_period_counterexample:
  "restart_reason
     (update sim_env sim_macros
        ((sim_net (sim_world\<lparr>clock := 45000, brokerUp := False\<rparr>))
           \<lparr>lastConnectedTs := 45000 - 46000\<rparr>)) \<noteq> Some NetworkTimeoutWatchdog
   \<and> returned
     (update sim_env sim_macros
        ((sim_net (sim_world\<lparr>clock := 45000, brokerUp := False\<rparr>))
           \<lparr>lastConnectedTs := 45000 - 46000\<rparr>)) = Some False"
  apply (simp add: update_def sim_net_def sim_world_def sim_env_def device_update_def perform_def update_transport_def reconnect_def returned_def restart_reason_def)
  apply (subst reconnect_loop.simps)
  apply (simp add: attempt_def handshake_def start_handshake_def perform_def)
  apply (subst wait_for_reply.simps)
  apply (simp add: wait_step_def device_update_def perform_def handle_event_def onMqttDisconnect_def)
  apply (subst wait_for_reply.simps)
  apply (simp add: on_connect_failed_def perform_def)
  apply (subst reconnect_loop.simps)
  apply (simp)
  apply (subst reconnect_loop.simps)
  apply (simp add: attempt_def handshake_def start_handshake_def perform_def)
  apply (subst wait_for_reply.simps)
  apply (simp add: wait_step_def device_update_def perform_def handle_event_def onMqttDisconnect_def)
  apply (subst wait_for_reply.simps)
  apply (simp add: on_connect_failed_def perform_def)
  apply (subst reconnect_loop.simps)
  apply (simp)
  done

text \<open>
  C7. When the tick reaches the transport's \<^verbatim>\<open>reconnect()\<close> (MQTT is enabled, the
  transport is down after the pump and the restart-on-disconnect watchdog does not fire)
  and it reports a critical failure, the tick writes the fallback marker and restarts
  with the critical-failure reason. At any boot that finds the marker as the restart
  left it, with the fallback-disabled preference false, \<^verbatim>\<open>setupDevice()\<close> returns
  with the Wi-Fi transport, whatever the hardware preference says.
\<close>

theorem critical_failure_falls_back_to_wifi:
  assumes "mqttEnabled s"
    and "\<not> isConnected env (world (device_update env m s))"
    and "\<not> (restartOnDisconnect s \<and> millis env (world (device_update env m s)) > 60000)"
    and "reconnect_status env (world (perform env DevReconnect (device_update env m s)))
           = CriticalFailure"
  shows "\<exists>t. update env m s = Some (Restart NetworkDeviceCriticalFailure t)
           \<and> WiFi_fallbackDetect t = ''wifi_fallback''
           \<and> (\<forall>b. survives_restart t b \<and> \<not> fallback_disabled_at_boot env b \<longrightarrow>
                  (\<exists>b'. setupDevice env b = Return () b' \<and> networkDeviceType b' = WiFi))"
proof -
  let ?s1 = "device_update env m s"
  let ?t = "perform env (Delay 200)
              ((perform env DevReconnect ?s1)\<lparr>WiFi_fallbackDetect := ''wifi_fallback''\<rparr>)"
  have p: "pump_step s ?s1" by (rule pump_step_device_update)
  have restart: "update env m s = Some (Restart NetworkDeviceCriticalFailure ?t)"
    using assms pump_step_mqttEnabled [OF p] pump_step_watchdog_fields [OF p]
    by (simp add: update_def Let_def update_transport_def)
  have marker: "WiFi_fallbackDetect ?t = ''wifi_fallback''"
    by (simp add: perform_def)
  have boot: "\<exists>b'. setupDevice env b = Return () b' \<and> networkDeviceType b' = WiFi"
    if "survives_restart ?t b" and "\<not> fallback_disabled_at_boot env b" for b
  proof (cases "getInt env (world b) preference_network_hardware = 0")
    case True
    with that marker show ?thesis
      by (simp add: survives_restart_def fallback_disabled_at_boot_def setupDevice_def Let_def
          perform_def)
  next
    case False
    with that marker show ?thesis
      by (simp add: survives_restart_def fallback_disabled_at_boot_def setupDevice_def Let_def)
  qed
  from restart marker boot show ?thesis by blast
qed

text \<open>
  The scripted transport reports a critical failure; at the next boot the hardware
  preference asks for the Olimex board and the device type is Wi-Fi.
\<close>

theorem critical_failure_falls_back_to_wifi_witness:
  "restart_reason
     (update sim_env sim_macros (sim_net (sim_world\<lparr>link := False, reconnectResult := CriticalFailure\<rparr>)))
     = Some NetworkDeviceCriticalFailure
   \<and> setupDevice sim_env ((sim_net sim_world)\<lparr>WiFi_fallbackDetect := ''wifi_fallback''\<rparr>)
     = Return () ((sim_net sim_world)\<lparr>WiFi_fallbackDetect := ''wifi_fallback'', networkDeviceType := WiFi\<rparr>)
   \<and> select_device (getInt sim_env sim_world preference_network_hardware) = Olimex_LAN8720"
proof -
  let ?s = "sim_net (sim_world\<lparr>link := False, reconnectResult := CriticalFailure\<rparr>)"
  let ?b = "(sim_net sim_world)\<lparr>WiFi_fallbackDetect := ''wifi_fallback''\<rparr>"
  have "\<exists>t. update sim_env sim_macros ?s = Some (Restart NetworkDeviceCriticalFailure t)
           \<and> WiFi_fallbackDetect t = ''wifi_fallback''
           \<and> (\<forall>b. survives_restart t b \<and> \<not> fallback_disabled_at_boot sim_env b \<longrightarrow>
                  (\<exists>b'. setupDevice sim_env b = Return () b' \<and> networkDeviceType b' = WiFi))"
    by (rule critical_failure_falls_back_to_wifi)
       (simp_all add: device_update_def perform_def sim_net_def sim_world_def sim_env_def)
  then obtain t where t: "update sim_env sim_macros ?s = Some (Restart NetworkDeviceCriticalFailure t)"
    and boot: "\<And>b. survives_restart t b \<Longrightarrow> \<not> fallback_disabled_at_boot sim_env b \<Longrightarrow>
                  (\<exists>b'. setupDevice sim_env b = Return () b' \<and> networkDeviceType b' = WiFi)"
    and mk: "WiFi_fallbackDetect t = ''wifi_fallback''"
    by blast
  have "survives_restart t ?b" using mk by (simp add: survives_restart_def)
  moreover have "\<not> fallback_disabled_at_boot sim_env ?b"
    by (simp add: fallback_disabled_at_boot_def sim_net_def sim_world_def sim_env_def)
  ultimately obtain b' where "setupDevice sim_env ?b = Return () b'" "networkDeviceType b' = WiFi"
    using boot by blast
  have "setupDevice sim_env ?b = Return () (?b\<lparr>networkDeviceType := WiFi\<rparr>)"
    by (simp add: setupDevice_def Let_def sim_net_def sim_world_def sim_env_def)
  moreover have "restart_reason (update sim_env sim_macros ?s) = Some NetworkDeviceCriticalFailure"
    using t by (simp add: restart_reason_def)
  moreover have "select_device (getInt sim_env sim_world preference_network_hardware) = Olimex_LAN8720"
    by (simp add: select_device_def sim_world_def sim_env_def)
  ultimately show ?thesis by simp
qed

subsection \<open>The reconnection protocol\<close>

lemma handshake_step_refl: "handshake_step s s"
  by (simp add: handshake_step_def continues_refl)

lemma handshake_step_trans: "handshake_step s t \<Longrightarrow> handshake_step t u \<Longrightarrow> handshake_step s u"
  by (auto simp: handshake_step_def intro: continues_trans)

lemma handshake_step_perform: "is_handshake_call c \<Longrightarrow> handshake_step s (perform env c s)"
  by (simp add: handshake_step_def configuration_perform session_state_perform continues_perform)

lemma is_pump_call_handshake: "is_pump_call c \<Longrightarrow> is_handshake_call c"
  by (cases c) simp_all

lemma pump_step_handshake_step: "pump_step s t \<Longrightarrow> handshake_step s t"
  by (auto simp: pump_step_def handshake_step_def intro: continues_mono is_pump_call_handshake)

lemma handshake_step_wait_step: "handshake_step s (wait_step env m s)"
proof -
  let ?s1 = "perform env (Delay 50) s"
  let ?s2 = "device_update env m ?s1"
  have a: "handshake_step s ?s1" by (simp add: handshake_step_perform)
  have b: "handshake_step ?s1 ?s2"
    by (rule pump_step_handshake_step [OF pump_step_device_update])
  have c: "handshake_step ?s2 (perform env KeepAliveCallback ?s2)"
    by (simp add: handshake_step_perform)
  show ?thesis
    unfolding wait_step_def Let_def
    using handshake_step_trans [OF a b] handshake_step_trans [OF handshake_step_trans [OF a b] c]
    by simp
qed

lemma handshake_step_wait_for_reply:
  assumes "wait_for_reply env m deadline s = Some t"
  shows "handshake_step s t"
proof (rule wait_for_reply.raw_induct
         [where P = "\<lambda>env m deadline s t. handshake_step s t", OF _ assms])
  fix f env m deadline and s t :: "'a net"
  assume IH: "\<And>a b c d y. f a b c d = Some y \<Longrightarrow> handshake_step d y"
    and eq: "(if \<not> connectReplyReceived s \<and> millis env (world s) < deadline
              then f env m deadline (wait_step env m s) else Some s) = Some t"
  show "handshake_step s t"
  proof (cases "\<not> connectReplyReceived s \<and> millis env (world s) < deadline")
    case True
    with eq have "f env m deadline (wait_step env m s) = Some t" by simp
    from IH [OF this] show ?thesis
      by (rule handshake_step_trans [OF handshake_step_wait_step])
  next
    case False
    with eq show ?thesis by (auto simp: handshake_step_refl)
  qed
qed

lemma handshake_step_start_handshake: "handshake_step s (start_handshake env port s)"
proof -
  have "configuration (start_handshake env port s) = configuration s"
    by (simp add: start_handshake_def Let_def configuration_def perform_def)
  moreover have "session_state (start_handshake env port s) = session_state s"
    by (simp add: start_handshake_def Let_def session_state_def perform_def)
  moreover have "continues is_handshake_call s (start_handshake env port s)"
    by (simp add: start_handshake_def Let_def continues_iff perform_def)
  ultimately show ?thesis by (simp add: handshake_step_def)
qed

lemma handshake_step_handshake: "handshake env m port s = Some t \<Longrightarrow> handshake_step s t"
  unfolding handshake_def Let_def
  by (rule handshake_step_trans [OF handshake_step_start_handshake handshake_step_wait_for_reply])

text \<open>
  The wait loop returns in every environment whose clock moves forward in each round
  as long as the deadline is ahead: the time left to the deadline shrinks.
\<close>

lemma wait_for_reply_returns:
  assumes "\<And>s. millis env (world s) < deadline \<Longrightarrow>
             unat (millis env (world s)) < unat (millis env (world (wait_step env m s)))"
  shows "\<exists>t. wait_for_reply env m deadline s = Some t"
proof (induction "unat deadline - unat (millis env (world s))" arbitrary: s rule: less_induct)
  case less
  show ?case
  proof (cases "\<not> connectReplyReceived s \<and> millis env (world s) < deadline")
    case False
    then show ?thesis by (subst wait_for_reply.simps) auto
  next
    case True
    then have lt: "millis env (world s) < deadline" by simp
    then have "unat (millis env (world s)) < unat deadline"
      by (simp add: word_less_nat_alt)
    with assms [OF lt]
    have "unat deadline - unat (millis env (world (wait_step env m s)))
            < unat deadline - unat (millis env (world s))"
      by arith
    from less [OF this] obtain t where "wait_for_reply env m deadline (wait_step env m s) = Some t"
      by blast
    then show ?thesis
      using True by (subst wait_for_reply.simps) simp
  qed
qed

lemma on_connect_failed_eq:
  "on_connect_failed env s =
     s\<lparr>world := exec env (MqttDisconnect True) (exec env PrintError (world s)),
       trace := trace s @ [PrintError, MqttDisconnect True],
       mqttConnectionState := 0,
       nextReconnect := millis env (exec env PrintError (world s)) + 5000\<rparr>"
  by (simp add: on_connect_failed_def Let_def perform_def)

lemma emits_trans: "emits a s t \<Longrightarrow> emits b t u \<Longrightarrow> emits (a @ b) s u"
  by (simp add: emits_def)

lemma emits_perform: "emits [c] s (perform env c s)"
  by (simp add: emits_def trace_perform configuration_perform)

lemma emits_foldl_perform: "emits (map f xs) s (foldl (\<lambda>st x. perform env (f x) st) s xs)"
  by (simp add: emits_def trace_foldl_perform configuration_foldl_perform)

lemma emits_configuration: "emits cs s t \<Longrightarrow> configuration t = configuration s"
  by (simp add: emits_def)

lemma emits_calls_since: "emits cs s t \<Longrightarrow> calls_since s t = cs"
  by (simp add: emits_def calls_since_def)

lemma emits_continues: "emits cs s t \<Longrightarrow> continues (\<lambda>c. True) s t"
  by (simp add: emits_def continues_iff list_all_iff)

lemma open_quiet_window_emits:
  "emits [Delay 100, MqttOnMessage] s (open_quiet_window env s)"
  by (simp add: open_quiet_window_def Let_def emits_def perform_def configuration_def)

lemma open_quiet_window_session:
  "firstConnect (open_quiet_window env s) = firstConnect s
   \<and> nextReconnect (open_quiet_window env s) = nextReconnect s
   \<and> ignoreSubscriptionsTs (open_quiet_window env s)
       = millis env (exec env (Delay 100) (world s)) + 2000"
  by (simp add: open_quiet_window_def Let_def perform_def)

lemma resubscribe_emits:
  "emits (map (\<lambda>topic. MqttSubscribe topic (MQTT_QOS_LEVEL m)) (subscribedTopics s)) s
     (resubscribe env m s)"
  unfolding resubscribe_def by (rule emits_foldl_perform)

lemma resubscribe_session: "session_state (resubscribe env m s) = session_state s"
  unfolding resubscribe_def by (rule session_state_foldl_perform)

lemma publish_init_topics_emits:
  "emits (map (init_publish m) (initTopics s)) s (publish_init_topics env m s)"
proof -
  have "publish_init_topics env m s =
          foldl (\<lambda>st x. perform env (init_publish m x) st) s (initTopics s)"
    by (simp add: publish_init_topics_def mqttPublish_def init_publish_def)
  then show ?thesis by (simp add: emits_foldl_perform)
qed

lemma publish_init_topics_session:
  "session_state (publish_init_topics env m s) = session_state s"
proof -
  have "publish_init_topics env m s =
          foldl (\<lambda>st x. perform env (init_publish m x) st) s (initTopics s)"
    by (simp add: publish_init_topics_def mqttPublish_def init_publish_def)
  then show ?thesis by (simp add: session_state_foldl_perform)
qed

lemma publishString_emits:
  "emits [MqttPublish (buildMqttPath [prefix, topic]) (MQTT_QOS_LEVEL m) True v] s
     (snd (publishString env m prefix topic v s))"
  by (simp add: publishString_def mqttPublish_def Let_def emits_perform)

lemma publishString_session:
  "session_state (snd (publishString env m prefix topic v s)) = session_state s"
  by (simp add: publishString_def mqttPublish_def Let_def session_state_perform)

lemma first_connect_emits:
  "\<exists>dn. emits (if firstConnect s
               then MqttPublish (buildMqttPath [maintenancePathPrefix s, mqtt_topic_network_device m])
                      (MQTT_QOS_LEVEL m) True dn
                    # map (init_publish m) (initTopics s)
               else []) s (first_connect env m s)"
proof (cases "firstConnect s")
  case False
  then show ?thesis by (simp add: first_connect_def emits_def)
next
  case True
  let ?f1 = "s\<lparr>firstConnect := False\<rparr>"
  let ?dn = "deviceName env (world ?f1)"
  let ?f2 = "snd (publishString env m (maintenancePathPrefix ?f1) (mqtt_topic_network_device m) ?dn ?f1)"
  have a: "emits [] s ?f1" by (simp add: emits_def configuration_def)
  have b: "emits [MqttPublish (buildMqttPath [maintenancePathPrefix ?f1, mqtt_topic_network_device m])
                    (MQTT_QOS_LEVEL m) True ?dn] ?f1 ?f2"
    by (rule publishString_emits)
  have c: "emits (map (init_publish m) (initTopics ?f2)) ?f2 (publish_init_topics env m ?f2)"
    by (rule publish_init_topics_emits)
  have i: "initTopics ?f2 = initTopics s"
    using emits_configuration [OF b] by (simp add: configuration_def)
  have "emits (MqttPublish (buildMqttPath [maintenancePathPrefix s, mqtt_topic_network_device m])
                    (MQTT_QOS_LEVEL m) True ?dn # map (init_publish m) (initTopics s))
          s (publish_init_topics env m ?f2)"
    using emits_trans [OF emits_trans [OF a b] c] i by simp
  then show ?thesis
    using True by (auto simp: first_connect_def Let_def)
qed

lemma first_connect_session:
  "\<not> firstConnect (first_connect env m s)
   \<and> nextReconnect (first_connect env m s) = nextReconnect s
   \<and> ignoreSubscriptionsTs (first_connect env m s) = ignoreSubscriptionsTs s"
proof (cases "firstConnect s")
  case False
  then show ?thesis by (simp add: first_connect_def)
next
  case True
  let ?f1 = "s\<lparr>firstConnect := False\<rparr>"
  let ?f2 = "snd (publishString env m (maintenancePathPrefix ?f1) (mqtt_topic_network_device m)
                    (deviceName env (world ?f1)) ?f1)"
  have "session_state (publish_init_topics env m ?f2) = session_state ?f1"
    by (simp add: publish_init_topics_session publishString_session)
  then show ?thesis
    using True by (simp add: first_connect_def Let_def session_state_def)
qed

lemma publish_online_emits:
  "\<exists>ip. emits [MqttPublish (buildMqttPath [maintenancePathPrefix s, mqtt_topic_mqtt_connection_state m])
                  (MQTT_QOS_LEVEL m) True ''online'',
                MqttPublish (buildMqttPath [maintenancePathPrefix s, mqtt_topic_info_nuki_hub_ip m])
                  (MQTT_QOS_LEVEL m) True ip] s (publish_online env m s)"
proof -
  let ?s7 = "snd (publishString env m (maintenancePathPrefix s)
                      (mqtt_topic_mqtt_connection_state m) ''online'' s)"
  let ?ip = "localIP env (world ?s7)"
  have a: "emits [MqttPublish (buildMqttPath [maintenancePathPrefix s, mqtt_topic_mqtt_connection_state m])
                  (MQTT_QOS_LEVEL m) True ''online''] s ?s7"
    by (rule publishString_emits)
  have b: "emits [MqttPublish (buildMqttPath [maintenancePathPrefix ?s7, mqtt_topic_info_nuki_hub_ip m])
                  (MQTT_QOS_LEVEL m) True ?ip] ?s7
             (snd (publishString env m (maintenancePathPrefix ?s7)
                (mqtt_topic_info_nuki_hub_ip m) ?ip ?s7))"
    by (rule publishString_emits)
  have p: "maintenancePathPrefix ?s7 = maintenancePathPrefix s"
    using emits_configuration [OF a] by (simp add: configuration_def)
  show ?thesis
    using emits_trans [OF a b] p by (auto simp: publish_online_def Let_def)
qed

lemma publish_online_session: "session_state (publish_online env m s) = session_state s"
  by (simp add: publish_online_def Let_def publishString_session)

lemma notify_reconnected_emits:
  "emits (map ReconnectedCallback (reconnectedCallbacks s)) s (notify_reconnected env s)"
proof -
  let ?s9 = "s\<lparr>mqttConnectionState := 2\<rparr>"
  have a: "emits [] s ?s9" by (simp add: emits_def configuration_def)
  have b: "emits (map ReconnectedCallback (reconnectedCallbacks ?s9)) ?s9
             (foldl (\<lambda>st callback. perform env (ReconnectedCallback callback) st) ?s9
                (reconnectedCallbacks ?s9))"
    by (rule emits_foldl_perform)
  show ?thesis
    using emits_trans [OF a b] by (simp add: notify_reconnected_def Let_def)
qed

lemma notify_reconnected_session:
  "mqttConnectionState (notify_reconnected env s) = 2
   \<and> firstConnect (notify_reconnected env s) = firstConnect s
   \<and> nextReconnect (notify_reconnected env s) = nextReconnect s
   \<and> ignoreSubscriptionsTs (notify_reconnected env s) = ignoreSubscriptionsTs s"
proof -
  let ?s9 = "s\<lparr>mqttConnectionState := 2\<rparr>"
  have "session_state (notify_reconnected env s) = session_state ?s9"
    by (simp add: notify_reconnected_def Let_def session_state_foldl_perform)
  then show ?thesis by (simp add: session_state_def)
qed

lemma configuration_fields:
  "configuration t = configuration s \<Longrightarrow>
     subscribedTopics t = subscribedTopics s \<and> initTopics t = initTopics s
     \<and> maintenancePathPrefix t = maintenancePathPrefix s
     \<and> reconnectedCallbacks t = reconnectedCallbacks s
     \<and> mqttReceivers t = mqttReceivers s \<and> lockPath t = lockPath s"
  by (simp add: configuration_def)

lemma on_connected_emits:
  "\<exists>dn ip. emits (connect_calls m s dn ip) s (on_connected env m s)"
proof -
  let ?a = "open_quiet_window env s"
  let ?b = "resubscribe env m ?a"
  let ?c = "first_connect env m ?b"
  let ?d = "publish_online env m ?c"
  have e1: "emits [Delay 100, MqttOnMessage] s ?a"
    by (rule open_quiet_window_emits)
  have e2: "emits (map (\<lambda>topic. MqttSubscribe topic (MQTT_QOS_LEVEL m)) (subscribedTopics ?a)) ?a ?b"
    by (rule resubscribe_emits)
  obtain dn where e3: "emits (if firstConnect ?b
               then MqttPublish (buildMqttPath [maintenancePathPrefix ?b, mqtt_topic_network_device m])
                      (MQTT_QOS_LEVEL m) True dn
                    # map (init_publish m) (initTopics ?b)
               else []) ?b ?c"
    using first_connect_emits [of ?b m env] by blast
  obtain ip where e4: "emits [MqttPublish (buildMqttPath [maintenancePathPrefix ?c, mqtt_topic_mqtt_connection_state m])
                  (MQTT_QOS_LEVEL m) True ''online'',
                MqttPublish (buildMqttPath [maintenancePathPrefix ?c, mqtt_topic_info_nuki_hub_ip m])
                  (MQTT_QOS_LEVEL m) True ip] ?c ?d"
    using publish_online_emits [of ?c m env] by blast
  have e5: "emits (map ReconnectedCallback (reconnectedCallbacks ?d)) ?d (notify_reconnected env ?d)"
    by (rule notify_reconnected_emits)
  have ca: "configuration ?a = configuration s" by (rule emits_configuration [OF e1])
  have cb: "configuration ?b = configuration s"
    using emits_configuration [OF e2] ca by simp
  have cc: "configuration ?c = configuration s"
    using emits_configuration [OF e3] cb by simp
  have cd: "configuration ?d = configuration s"
    using emits_configuration [OF e4] cc by simp
  have fb: "firstConnect ?b = firstConnect s"
    using resubscribe_session [of env m ?a] open_quiet_window_session [of env s]
    by (simp add: session_state_def)
  have "emits ([Delay 100, MqttOnMessage]
          @ map (\<lambda>topic. MqttSubscribe topic (MQTT_QOS_LEVEL m)) (subscribedTopics ?a)
          @ (if firstConnect ?b
               then MqttPublish (buildMqttPath [maintenancePathPrefix ?b, mqtt_topic_network_device m])
                      (MQTT_QOS_LEVEL m) True dn
                    # map (init_publish m) (initTopics ?b)
               else [])
          @ [MqttPublish (buildMqttPath [maintenancePathPrefix ?c, mqtt_topic_mqtt_connection_state m])
                  (MQTT_QOS_LEVEL m) True ''online'',
             MqttPublish (buildMqttPath [maintenancePathPrefix ?c, mqtt_topic_info_nuki_hub_ip m])
                  (MQTT_QOS_LEVEL m) True ip]
          @ map ReconnectedCallback (reconnectedCallbacks ?d)) s (notify_reconnected env ?d)"
    using emits_trans [OF e1 emits_trans [OF e2 emits_trans [OF e3 emits_trans [OF e4 e5]]]]
    by simp
  then have "emits (connect_calls m s dn ip) s (on_connected env m s)"
    unfolding connect_calls_def on_connected_def
    using configuration_fields [OF ca] configuration_fields [OF cb] configuration_fields [OF cc]
      configuration_fields [OF cd] fb
    by (simp cong: if_cong)
  then show ?thesis by blast
qed

lemma on_connected_session:
  "mqttConnectionState (on_connected env m s) = 2
   \<and> \<not> firstConnect (on_connected env m s)
   \<and> nextReconnect (on_connected env m s) = nextReconnect s
   \<and> ignoreSubscriptionsTs (on_connected env m s)
       = millis env (exec env (Delay 100) (world s)) + 2000"
  unfolding on_connected_def
  using notify_reconnected_session [of env "publish_online env m
          (first_connect env m (resubscribe env m (open_quiet_window env s)))"]
    publish_online_session [of env m "first_connect env m (resubscribe env m (open_quiet_window env s))"]
    first_connect_session [of env m "resubscribe env m (open_quiet_window env s)"]
    resubscribe_session [of env m "open_quiet_window env s"]
    open_quiet_window_session [of env s]
  by (simp add: session_state_def)

lemma filter_subscribe_connect_calls:
  "filter is_subscribe (connect_calls m s dn ip)
     = map (\<lambda>topic. MqttSubscribe topic (MQTT_QOS_LEVEL m)) (subscribedTopics s)"
proof -
  have a: "filter is_subscribe (map (\<lambda>topic. MqttSubscribe topic q) xs) = map (\<lambda>topic. MqttSubscribe topic q) xs" for q xs
    by (induction xs) simp_all
  have b: "filter is_subscribe (map (init_publish m) xs) = []" for xs
    by (induction xs) (simp_all add: init_publish_def)
  have c: "filter is_subscribe (map ReconnectedCallback xs) = []" for xs
    by (induction xs) simp_all
  show ?thesis by (simp add: connect_calls_def a b c)
qed

lemma handshake_step_subscribedTopics:
  "handshake_step s t \<Longrightarrow> subscribedTopics t = subscribedTopics s"
  by (simp add: handshake_step_def configuration_def)

lemma handshake_step_no_subscribe:
  "handshake_step s t \<Longrightarrow> filter is_subscribe (calls_since s t) = []"
proof -
  assume "handshake_step s t"
  then have "list_all is_handshake_call (calls_since s t)"
    by (simp add: handshake_step_def continues_def)
  moreover have "is_handshake_call c \<Longrightarrow> \<not> is_subscribe c" for c
    by (cases c) simp_all
  ultimately show ?thesis
    by (auto simp: filter_empty_conv list_all_iff)
qed

text \<open>
  C6. With an empty broker address, MQTT not connected and the retry deadline passed,
  \<^verbatim>\<open>reconnect()\<close> returns \<open>false\<close> at once. The state it leaves differs from the
  state before in the connection state 0 and the retry deadline, which is the current
  time plus 5000 ms; the world and the trace are untouched: no call was made, so no
  credentials, no last will, no server and no connect request went to the transport.
\<close>

theorem reconnect_without_broker:
  assumes "mqttBrokerAddr s = []"
    and "\<not> mqttConnected env (world s)"
    and "nextReconnect s < millis env (world s)"
  shows "reconnect env m s =
           Some (False, s\<lparr>mqttConnectionState := 0,
                          nextReconnect := millis env (world s) + 5000\<rparr>)
         \<and> calls_since s (s\<lparr>mqttConnectionState := 0,
                              nextReconnect := millis env (world s) + 5000\<rparr>) = []"
  using assms
  by (simp add: reconnect_def Let_def calls_since_def reconnect_loop.simps [of env m _ "s\<lparr>mqttConnectionState := 0\<rparr>"])

theorem reconnect_without_broker_witness:
  "reconnect sim_env sim_macros ((sim_net sim_world)\<lparr>mqttBrokerAddr := []\<rparr>) =
     Some (False, (sim_net sim_world)\<lparr>mqttBrokerAddr := [], nextReconnect := 75000\<rparr>)"
  using reconnect_without_broker [of "(sim_net sim_world)\<lparr>mqttBrokerAddr := []\<rparr>" sim_env sim_macros]
  by (simp add: sim_net_def sim_world_def sim_env_def)

text \<open>
  C8. A connection attempt whose handshake has ended (by a reply or by the deadline)
  without the transport reporting MQTT connected takes the failure branch: the
  connection state is 0, the retry deadline is the time read after the error report plus
  5000 ms, and the last two calls are the error report and the forced disconnect. The
  loop of \<^verbatim>\<open>reconnect()\<close> tests its condition again only in the state this leaves, so
  the forced disconnect comes before any retry.
\<close>

theorem failed_attempt_backs_off:
  assumes "handshake env m port s = Some s2"
    and "\<not> mqttConnected env (world s2)"
  shows "attempt env m port s = Some (on_connect_failed env s2)
         \<and> mqttConnectionState (on_connect_failed env s2) = 0
         \<and> nextReconnect (on_connect_failed env s2)
             = millis env (exec env PrintError (world s2)) + 5000
         \<and> calls_since s2 (on_connect_failed env s2) = [PrintError, MqttDisconnect True]
         \<and> (\<not> mqttConnected env (world s) \<and> nextReconnect s < millis env (world s)
              \<and> mqttBrokerAddr s \<noteq> [] \<longrightarrow>
            reconnect_loop env m port s = reconnect_loop env m port (on_connect_failed env s2))"
proof -
  have a: "attempt env m port s = Some (on_connect_failed env s2)"
    using assms by (simp add: attempt_def)
  have b: "reconnect_loop env m port s = reconnect_loop env m port (on_connect_failed env s2)"
    if "\<not> mqttConnected env (world s)" "nextReconnect s < millis env (world s)"
       "mqttBrokerAddr s \<noteq> []"
    using that a by (subst reconnect_loop.simps) simp
  show ?thesis
    using a b by (simp add: on_connect_failed_eq calls_since_def)
qed

text \<open>The broker of the scripted environment refuses the connect request.\<close>

theorem failed_attempt_backs_off_witness:
  "map_option nextReconnect
     (attempt sim_env sim_macros 1883 (sim_net (sim_world\<lparr>brokerUp := False\<rparr>))) = Some 75050
   \<and> map_option mqttConnectionState
     (attempt sim_env sim_macros 1883 (sim_net (sim_world\<lparr>brokerUp := False\<rparr>))) = Some 0
   \<and> map_option trace
     (attempt sim_env sim_macros 1883 (sim_net (sim_world\<lparr>brokerUp := False\<rparr>)))
     = Some [SetWill ''nuki/mqtt/connectionState'' 1 True ''offline'',
             MqttSetServer ''broker'' 1883, MqttConnect, Delay 50, DevUpdate,
             PrintError, MqttDisconnect True]"
proof -
  let ?s = "sim_net (sim_world\<lparr>brokerUp := False\<rparr>)"
  let ?s2 = "?s\<lparr>world := sim_world\<lparr>brokerUp := False, clock := 70050,
                                     fired := [MqttDisconnectEvent 7]\<rparr>,
                 trace := [SetWill ''nuki/mqtt/connectionState'' 1 True ''offline'',
                           MqttSetServer ''broker'' 1883, MqttConnect, Delay 50, DevUpdate],
                 connectReplyReceived := True\<rparr>"
  have h: "handshake sim_env sim_macros 1883 ?s = Some ?s2"
    apply (simp add: handshake_def start_handshake_def perform_def sim_net_def sim_world_def sim_env_def)
    apply (subst wait_for_reply.simps)
    apply (simp add: wait_step_def device_update_def perform_def handle_event_def onMqttDisconnect_def)
    apply (subst wait_for_reply.simps)
    apply simp
    done
  have nc: "\<not> mqttConnected sim_env (world ?s2)"
    by (simp add: sim_world_def sim_env_def)
  from failed_attempt_backs_off [OF h nc] show ?thesis
    by (simp add: on_connect_failed_eq sim_net_def sim_world_def sim_env_def)
qed

lemma attempt_resubscribes:
  assumes "handshake env m port s = Some s2"
    and "mqttConnected env (world s2)"
  shows "attempt env m port s = Some (on_connected env m s2)
         \<and> filter is_subscribe (calls_since s (on_connected env m s2))
             = map (\<lambda>topic. MqttSubscribe topic (MQTT_QOS_LEVEL m)) (subscribedTopics s)"
proof -
  have hs: "handshake_step s s2"
    by (rule handshake_step_handshake [OF assms(1)])
  have c1: "continues is_handshake_call s s2"
    using hs by (simp add: handshake_step_def)
  obtain dn ip where e: "emits (connect_calls m s2 dn ip) s2 (on_connected env m s2)"
    using on_connected_emits [of m s2 env] by blast
  have "calls_since s (on_connected env m s2)
          = calls_since s s2 @ calls_since s2 (on_connected env m s2)"
    by (rule calls_since_trans [OF c1 emits_continues [OF e]])
  then have "filter is_subscribe (calls_since s (on_connected env m s2))
          = map (\<lambda>topic. MqttSubscribe topic (MQTT_QOS_LEVEL m)) (subscribedTopics s)"
    using handshake_step_no_subscribe [OF hs] handshake_step_subscribedTopics [OF hs]
    by (simp add: emits_calls_since [OF e] filter_subscribe_connect_calls)
  then show ?thesis
    using assms by (simp add: attempt_def)
qed

lemma resubscribed_refl: "resubscribed m 0 s s"
  by (simp add: resubscribed_def continues_refl calls_since_def)

lemma resubscribed_trans:
  assumes "resubscribed m j s t" and "resubscribed m k t u"
  shows "resubscribed m (j + k) s u"
proof -
  have cst: "continues (\<lambda>c. True) s t" and ctu: "continues (\<lambda>c. True) t u"
    and cfg: "configuration t = configuration s" "configuration u = configuration t"
    using assms by (simp_all add: resubscribed_def)
  have r: "resubscribe_round m t = resubscribe_round m s"
    using configuration_fields [OF cfg(1)] by (simp add: resubscribe_round_def)
  have "calls_since s u = calls_since s t @ calls_since t u"
    by (rule calls_since_trans [OF cst ctu])
  then have "filter is_resubscribe_call (calls_since s u)
               = concat (replicate (j + k) (resubscribe_round m s))"
    using assms r by (simp add: resubscribed_def replicate_add)
  then show ?thesis
    using cfg continues_trans [OF cst ctu] by (simp add: resubscribed_def)
qed

lemma resubscribed_quiet:
  assumes "configuration t = configuration s"
    and "continues (\<lambda>c. \<not> is_resubscribe_call c) s t"
  shows "resubscribed m 0 s t"
proof -
  have "filter is_resubscribe_call (calls_since s t) = []"
    using assms(2) by (auto simp: continues_def filter_empty_conv list_all_iff)
  then show ?thesis
    using assms(1) continues_mono [OF assms(2), of "\<lambda>c. True"] by (simp add: resubscribed_def)
qed

lemma is_handshake_call_no_resubscribe: "is_handshake_call c \<Longrightarrow> \<not> is_resubscribe_call c"
  by (cases c) simp_all

lemma resubscribed_handshake:
  assumes "handshake env m port s = Some t"
  shows "resubscribed m 0 s t"
proof -
  have hs: "handshake_step s t" by (rule handshake_step_handshake [OF assms])
  then have "continues (\<lambda>c. \<not> is_resubscribe_call c) s t"
    using continues_mono [where P = is_handshake_call and Q = "\<lambda>c. \<not> is_resubscribe_call c"
        and s = s and t = t] is_handshake_call_no_resubscribe
    by (simp add: handshake_step_def)
  then show ?thesis
    using hs by (simp add: resubscribed_quiet handshake_step_def)
qed

lemma resubscribed_on_connect_failed: "resubscribed m 0 s (on_connect_failed env s)"
  by (rule resubscribed_quiet) (simp_all add: on_connect_failed_eq configuration_def continues_iff)

lemma filter_resubscribe_connect_calls:
  "filter is_resubscribe_call (connect_calls m s dn ip) = resubscribe_round m s"
proof -
  have a: "filter is_resubscribe_call (map (\<lambda>topic. MqttSubscribe topic q) xs)
             = map (\<lambda>topic. MqttSubscribe topic q) xs" for q xs
    by (induction xs) simp_all
  have b: "filter is_resubscribe_call (map (init_publish m) xs) = []" for xs
    by (induction xs) (simp_all add: init_publish_def)
  have c: "filter is_resubscribe_call (map ReconnectedCallback xs) = []" for xs
    by (induction xs) simp_all
  show ?thesis by (simp add: connect_calls_def resubscribe_round_def a b c)
qed

lemma resubscribed_on_connected: "resubscribed m 1 s (on_connected env m s)"
proof -
  obtain dn ip where e: "emits (connect_calls m s dn ip) s (on_connected env m s)"
    using on_connected_emits [of m s env] by blast
  show ?thesis
    using emits_configuration [OF e] emits_continues [OF e]
    by (simp add: resubscribed_def emits_calls_since [OF e] filter_resubscribe_connect_calls)
qed

lemma resubscribed_attempt:
  assumes "attempt env m port s = Some t"
  shows "\<exists>k. resubscribed m k s t \<and> (0 < mqttConnectionState t \<longrightarrow> 0 < k)"
proof -
  from assms obtain s2 where h: "handshake env m port s = Some s2"
    and t: "t = (if mqttConnected env (world s2) then on_connected env m s2
                 else on_connect_failed env s2)"
    by (auto simp: attempt_def)
  show ?thesis
  proof (cases "mqttConnected env (world s2)")
    case True
    with t resubscribed_trans [OF resubscribed_handshake [OF h] resubscribed_on_connected [of m s2 env]]
    have "resubscribed m 1 s t" by simp
    then show ?thesis by (intro exI [of _ 1]) simp
  next
    case False
    with t resubscribed_trans [OF resubscribed_handshake [OF h] resubscribed_on_connect_failed [of m s2 env]]
    have "resubscribed m 0 s t" by simp
    moreover have "mqttConnectionState t = 0"
      using False t by (simp add: on_connect_failed_eq)
    ultimately show ?thesis by (intro exI [of _ 0]) simp
  qed
qed

lemma resubscribed_reconnect_loop:
  assumes "reconnect_loop env m port s = Some ra"
  shows "\<exists>k. resubscribed m k s (snd ra) \<and> (fst ra \<longrightarrow> 0 < k \<or> 0 < mqttConnectionState s)"
proof (rule reconnect_loop.raw_induct
         [where P = "\<lambda>env m port s ra. \<exists>k. resubscribed m k s (snd ra)
                        \<and> (fst ra \<longrightarrow> 0 < k \<or> 0 < mqttConnectionState s)", OF _ assms])
  fix f env m port and s :: "'a net" and ra
  assume IH: "\<And>a b c d y. f a b c d = Some y \<Longrightarrow>
                \<exists>k. resubscribed b k d (snd y) \<and> (fst y \<longrightarrow> 0 < k \<or> 0 < mqttConnectionState d)"
    and eq: "(if \<not> mqttConnected env (world s) \<and> nextReconnect s < millis env (world s)
              then if mqttBrokerAddr s = []
                   then Some (False, s\<lparr>nextReconnect := millis env (world s) + 5000\<rparr>)
                   else Option.bind (attempt env m port s) (f env m port)
              else Some (0 < mqttConnectionState s, s)) = Some ra"
  show "\<exists>k. resubscribed m k s (snd ra) \<and> (fst ra \<longrightarrow> 0 < k \<or> 0 < mqttConnectionState s)"
  proof (cases "\<not> mqttConnected env (world s) \<and> nextReconnect s < millis env (world s)")
    case False
    with eq have "ra = (0 < mqttConnectionState s, s)" by auto
    then show ?thesis using resubscribed_refl [of m s] by auto
  next
    case due: True
    show ?thesis
    proof (cases "mqttBrokerAddr s = []")
      case True
      with eq due have "ra = (False, s\<lparr>nextReconnect := millis env (world s) + 5000\<rparr>)" by auto
      moreover have "resubscribed m 0 s (s\<lparr>nextReconnect := millis env (world s) + 5000\<rparr>)"
        by (rule resubscribed_quiet) (simp_all add: configuration_def continues_iff)
      ultimately show ?thesis by auto
    next
      case False
      with eq due obtain t where t: "attempt env m port s = Some t" "f env m port t = Some ra"
        by (auto simp: bind_eq_Some_conv)
      from resubscribed_attempt [OF t(1)] obtain j where
        j: "resubscribed m j s t" "0 < mqttConnectionState t \<longrightarrow> 0 < j" by blast
      from IH [OF t(2)] obtain k where
        k: "resubscribed m k t (snd ra)" "fst ra \<longrightarrow> 0 < k \<or> 0 < mqttConnectionState t" by blast
      from resubscribed_trans [OF j(1) k(1)] j(2) k(2) show ?thesis
        by (intro exI [of _ "j + k"]) auto
    qed
  qed
qed

lemma resubscribed_reconnect:
  assumes "reconnect env m s = Some (r, a)"
  shows "\<exists>k. resubscribed m k s a \<and> (r \<longrightarrow> 0 < k)"
proof -
  let ?s0 = "s\<lparr>mqttConnectionState := 0\<rparr>"
  from assms have "reconnect_loop env m (getInt env (world s) preference_mqtt_broker_port) ?s0
                     = Some (r, a)"
    by (simp add: reconnect_def Let_def)
  from resubscribed_reconnect_loop [OF this] obtain k where
    k: "resubscribed m k ?s0 a" "r \<longrightarrow> 0 < k" by auto
  have "resubscribed m 0 s ?s0"
    by (rule resubscribed_quiet) (simp_all add: configuration_def continues_iff)
  from resubscribed_trans [OF this k(1)] k(2) show ?thesis by auto
qed

text \<open>
  C4. When \<^verbatim>\<open>reconnect()\<close> returns, the calls it has made that install the message
  callback or subscribe are a number of full rounds, one for every connect it has
  completed: the installation of the callback, then one subscribe call for every entry of
  the subscribed topic list, in the order of the list, at \<^verbatim>\<open>MQTT_QOS_LEVEL\<close>, and no
  subscribe call besides. When it reports success there is at least one round. The list
  is left as it is, and \<^verbatim>\<open>subscribe(prefix, path)\<close> adds its path at the end. Within
  the call, an attempt whose handshake ends with the transport reporting MQTT connected
  takes the success branch and makes exactly one subscribe call for each entry of the
  list, in order.
\<close>

theorem resubscribe_on_connect:
  assumes "reconnect env m s = Some (r, a)"
  shows "(\<exists>k. (r \<longrightarrow> 0 < k)
            \<and> filter is_resubscribe_call (calls_since s a)
                = concat (replicate k
                    (MqttOnMessage
                     # map (\<lambda>topic. MqttSubscribe topic (MQTT_QOS_LEVEL m)) (subscribedTopics s))))
         \<and> subscribedTopics a = subscribedTopics s
         \<and> subscribedTopics (subscribe prefix path s)
             = subscribedTopics s @ [buildMqttPath [prefix, path]]
         \<and> (\<forall>port s1 s2. handshake env m port s1 = Some s2 \<and> mqttConnected env (world s2) \<longrightarrow>
               attempt env m port s1 = Some (on_connected env m s2)
               \<and> filter is_subscribe (calls_since s1 (on_connected env m s2))
                   = map (\<lambda>topic. MqttSubscribe topic (MQTT_QOS_LEVEL m)) (subscribedTopics s1))"
proof -
  from resubscribed_reconnect [OF assms] obtain k where
    k: "resubscribed m k s a" "r \<longrightarrow> 0 < k" by blast
  have a: "\<exists>k. (r \<longrightarrow> 0 < k)
            \<and> filter is_resubscribe_call (calls_since s a)
                = concat (replicate k
                    (MqttOnMessage
                     # map (\<lambda>topic. MqttSubscribe topic (MQTT_QOS_LEVEL m)) (subscribedTopics s)))"
    using k by (auto simp: resubscribed_def resubscribe_round_def)
  have b: "subscribedTopics a = subscribedTopics s"
    using k(1) by (simp add: resubscribed_def configuration_def)
  have c: "subscribedTopics (subscribe prefix path s)
             = subscribedTopics s @ [buildMqttPath [prefix, path]]"
    by (simp add: subscribe_def)
  show ?thesis
    using a b c attempt_resubscribes [of env m] by blast
qed

text \<open>
  A subscription is added to the scripted state and the broker accepts:
  \<^verbatim>\<open>reconnect()\<close> reports success after one round, the older topic first, and leaves
  the list as it was.
\<close>

theorem resubscribe_on_connect_witness:
  "map_option (\<lambda>(r, a). (r, filter is_resubscribe_call (trace a), subscribedTopics a))
     (reconnect sim_env sim_macros (subscribe ''nuki'' ''/lock/action'' (sim_net sim_world)))
   = Some (True,
           [MqttOnMessage, MqttSubscribe ''nuki/gpio/pin_17/state'' 1,
            MqttSubscribe ''nuki/lock/action'' 1],
           [''nuki/gpio/pin_17/state'', ''nuki/lock/action''])"
proof -
  let ?s = "subscribe ''nuki'' ''/lock/action'' (sim_net sim_world)"
  have "\<exists>a. reconnect sim_env sim_macros ?s = Some (True, a)
          \<and> filter is_resubscribe_call (trace a)
              = [MqttOnMessage, MqttSubscribe ''nuki/gpio/pin_17/state'' 1,
                 MqttSubscribe ''nuki/lock/action'' 1]"
    apply (simp add: reconnect_def subscribe_def sim_net_def sim_world_def sim_env_def)
    apply (subst reconnect_loop.simps)
    apply (simp add: attempt_def handshake_def start_handshake_def perform_def)
    apply (subst wait_for_reply.simps)
    apply (simp add: wait_step_def device_update_def perform_def handle_event_def onMqttConnect_def)
    apply (subst wait_for_reply.simps)
    apply (simp add: on_connected_def open_quiet_window_def resubscribe_def first_connect_def
        publish_init_topics_def publish_online_def notify_reconnected_def publishString_def
        mqttPublish_def perform_def buildMqttPath_pair joined_def cnth_def sim_macros_def)
    apply (subst reconnect_loop.simps)
    apply simp
    done
  then obtain a where a: "reconnect sim_env sim_macros ?s = Some (True, a)"
    "filter is_resubscribe_call (trace a)
              = [MqttOnMessage, MqttSubscribe ''nuki/gpio/pin_17/state'' 1,
                 MqttSubscribe ''nuki/lock/action'' 1]"
    by blast
  from resubscribe_on_connect [OF a(1), of "''nuki''" "''/lock/action''"]
  have "subscribedTopics a = subscribedTopics ?s" by blast
  then have "subscribedTopics a = [''nuki/gpio/pin_17/state'', ''nuki/lock/action'']"
    by (simp add: subscribe_def sim_net_def buildMqttPath_pair joined_def cnth_def)
  with a show ?thesis by simp
qed

subsection \<open>The inbound dispatch\<close>

lemma digit_char_props:
  assumes "d < 10"
  shows "isdigit (digit_char d)" "\<not> isspace (digit_char d)"
    "digit_char d \<noteq> CHR ''/''" "digit_char d \<noteq> CHR ''-''" "digit_char d \<noteq> CHR ''+''"
    "digit_char d \<noteq> NUL" "(of_char (digit_char d) :: nat) = 48 + d"
proof -
  show v: "(of_char (digit_char d) :: nat) = 48 + d"
    using assms by (simp add: digit_char_def)
  then show "isdigit (digit_char d)" "\<not> isspace (digit_char d)"
    using assms by (simp_all add: isdigit_def isspace_def)
  show "digit_char d \<noteq> CHR ''/''"
  proof
    assume "digit_char d = CHR ''/''"
    then have "(of_char (digit_char d) :: nat) = of_char CHR ''/''" by simp
    with v show False by simp
  qed
  show "digit_char d \<noteq> CHR ''-''"
  proof
    assume "digit_char d = CHR ''-''"
    then have "(of_char (digit_char d) :: nat) = of_char CHR ''-''" by simp
    with v show False by simp
  qed
  show "digit_char d \<noteq> CHR ''+''"
  proof
    assume "digit_char d = CHR ''+''"
    then have "(of_char (digit_char d) :: nat) = of_char CHR ''+''" by simp
    with v show False by simp
  qed
  show "digit_char d \<noteq> NUL"
  proof
    assume "digit_char d = NUL"
    then have "(of_char (digit_char d) :: nat) = of_char NUL" by simp
    with v show False by (simp add: NUL_def)
  qed
qed

lemma to_string_one_digit: "n < 10 \<Longrightarrow> to_string n = [digit_char n]"
  by (subst to_string.simps) simp

lemma to_string_two_digits:
  "10 \<le> n \<Longrightarrow> n < 100 \<Longrightarrow> to_string n = [digit_char (n div 10), digit_char (n mod 10)]"
  by (subst to_string.simps) (simp add: to_string_one_digit)

lemma atoi_one_digit: "d < 10 \<Longrightarrow> atoi [digit_char d] = int d"
  using digit_char_props [of d] by (simp add: atoi_def)

lemma atoi_two_digits:
  "a < 10 \<Longrightarrow> b < 10 \<Longrightarrow> atoi [digit_char a, digit_char b] = int (a * 10 + b)"
  using digit_char_props [of a] digit_char_props [of b] by (simp add: atoi_def)

lemma joined_starts_with_slash: "\<exists>r. joined path = CHR ''/'' # r"
  by (cases path) (auto simp: joined_def cnth_def NUL_def)

lemma joined_append: "p \<noteq> [] \<Longrightarrow> joined (p @ q) = joined p @ q"
  by (cases p) (simp_all add: joined_def cnth_def)

lemma joined_digits: "d < 10 \<Longrightarrow> joined (p @ digit_char d # q) = joined p @ digit_char d # q"
  using digit_char_props(3) [of d]
  by (cases p) (simp_all add: joined_def cnth_def NUL_def)

text \<open>
  The state topic of a pin is the path \<^verbatim>\<open>parseGpioTopics\<close> builds, then the digits
  of the pin, then a rest that starts with a separator.
\<close>

lemma gpio_state_topic_split:
  assumes "mqtt_topic_gpio_prefix m \<noteq> []" and "pin < 100"
  shows "\<exists>r. gpio_state_topic m s pin =
           buildMqttPath [lockPath s, mqtt_topic_gpio_prefix m, mqtt_topic_gpio_pin m]
           @ to_string pin @ CHR ''/'' # r"
proof -
  obtain r where r: "joined (mqtt_topic_gpio_state m) = CHR ''/'' # r"
    using joined_starts_with_slash by blast
  obtain d ds where ds: "to_string pin = digit_char d # ds" "d < 10"
  proof (cases "pin < 10")
    case True
    then show ?thesis using that [of pin "[]"] by (simp add: to_string_one_digit)
  next
    case False
    then show ?thesis
      using that [of "pin div 10" "[digit_char (pin mod 10)]"] assms(2)
      by (simp add: to_string_two_digits)
  qed
  have "joined (mqtt_topic_gpio_pin m @ to_string pin) = joined (mqtt_topic_gpio_pin m) @ to_string pin"
    using ds by (simp add: joined_digits)
  then show ?thesis
    using assms(1) r
    by (simp add: gpio_state_topic_def buildMqttPath_Cons joined_append)
qed

lemma parseGpioTopics_pin:
  assumes "topic = buildMqttPath [lockPath s, mqtt_topic_gpio_prefix m, mqtt_topic_gpio_pin m]
                     @ to_string pin @ CHR ''/'' # r"
    and "pin < 100"
  shows "parseGpioTopics env m topic payload s =
           (if getPinRole env (world s) (int pin) = GeneralOutput
            then perform env (DigitalWrite (int pin) (cstr_bytes payload = [49])) s else s)"
proof (cases "pin < 10")
  case True
  then have "to_string pin = [digit_char pin]" by (simp add: to_string_one_digit)
  then show ?thesis
    using assms(1) True digit_char_props(6) [of pin] atoi_one_digit [of pin]
    by (simp add: parseGpioTopics_def Let_def strncmp_eq_def cnth_def nth_append cstr_def)
next
  case False
  let ?a = "pin div 10" and ?b = "pin mod 10"
  have ab: "?a < 10" "?b < 10" using assms(2) by simp_all
  have "to_string pin = [digit_char ?a, digit_char ?b]"
    using False assms(2) by (simp add: to_string_two_digits)
  then show ?thesis
    using assms(1) digit_char_props(6) [OF ab(1)] digit_char_props(6) [OF ab(2)]
      digit_char_props(3) [OF ab(2)] atoi_two_digits [OF ab]
    by (simp add: parseGpioTopics_def Let_def strncmp_eq_def cnth_def nth_append cstr_def)
qed

lemma parseGpioTopics_no_receiver:
  "filter is_receiver_call (calls_since s (parseGpioTopics env m topic payload s)) = []"
  by (simp add: parseGpioTopics_def Let_def calls_since_def perform_def)

lemma parseGpioTopics_fields:
  "ignoreSubscriptionsTs (parseGpioTopics env m topic payload s) = ignoreSubscriptionsTs s
   \<and> mqttReceivers (parseGpioTopics env m topic payload s) = mqttReceivers s
   \<and> take (length (trace s)) (trace (parseGpioTopics env m topic payload s)) = trace s"
  by (simp add: parseGpioTopics_def Let_def perform_def)

lemma onMqttDataReceived_before_deadline:
  assumes "millis env (world (parseGpioTopics env m topic payload s)) < ignoreSubscriptionsTs s"
  shows "onMqttDataReceived env m topic payload len idx tot s
           = parseGpioTopics env m topic payload s
         \<and> filter is_receiver_call
             (calls_since s (onMqttDataReceived env m topic payload len idx tot s)) = []
         \<and> (pin < 100 \<and> mqtt_topic_gpio_prefix m \<noteq> [] \<and> topic = gpio_state_topic m s pin
              \<and> getPinRole env (world s) (int pin) = GeneralOutput \<longrightarrow>
            onMqttDataReceived env m topic payload len idx tot s
              = perform env (DigitalWrite (int pin) (cstr_bytes payload = [49])) s)
         \<and> ignoreSubscriptionsTs (on_connected env m s)
             = millis env (exec env (Delay 100) (world s)) + 2000"
proof -
  have a: "onMqttDataReceived env m topic payload len idx tot s
             = parseGpioTopics env m topic payload s"
    using assms parseGpioTopics_fields [of env m topic payload s]
    by (simp add: onMqttDataReceived_def Let_def)
  have b: "parseGpioTopics env m topic payload s
             = perform env (DigitalWrite (int pin) (cstr_bytes payload = [49])) s"
    if h: "pin < 100" "mqtt_topic_gpio_prefix m \<noteq> []" "topic = gpio_state_topic m s pin"
       "getPinRole env (world s) (int pin) = GeneralOutput"
  proof -
    obtain r where "topic = buildMqttPath [lockPath s, mqtt_topic_gpio_prefix m, mqtt_topic_gpio_pin m]
           @ to_string pin @ CHR ''/'' # r"
      using gpio_state_topic_split [OF h(2) h(1), of s] h(3) by blast
    from parseGpioTopics_pin [OF this h(1)] h(4) show ?thesis by simp
  qed
  have c: "pin < 100 \<and> mqtt_topic_gpio_prefix m \<noteq> [] \<and> topic = gpio_state_topic m s pin
              \<and> getPinRole env (world s) (int pin) = GeneralOutput \<longrightarrow>
            onMqttDataReceived env m topic payload len idx tot s
              = perform env (DigitalWrite (int pin) (cstr_bytes payload = [49])) s"
    using a b by metis
  have d: "filter is_receiver_call
             (calls_since s (onMqttDataReceived env m topic payload len idx tot s)) = []"
    using a parseGpioTopics_no_receiver [of s env m topic payload] by simp
  show ?thesis
    using a c d on_connected_session [of env m s] by blast
qed

lemma value_buffer_length: "length (value_buffer payload) = 50"
  by (simp add: value_buffer_def Let_def)

lemma onMqttDataReceived_receiver_calls:
  "filter is_receiver_call (calls_since s (onMqttDataReceived env m topic payload len idx tot s))
     = (if millis env (world (parseGpioTopics env m topic payload s)) < ignoreSubscriptionsTs s
        then []
        else map (\<lambda>receiver. ReceiverOnMqttDataReceived receiver topic payload idx)
               (mqttReceivers s))"
proof -
  let ?s1 = "parseGpioTopics env m topic payload s"
  let ?f = "\<lambda>receiver. ReceiverOnMqttDataReceived receiver topic payload idx"
  let ?t = "foldl (\<lambda>st receiver. perform env (?f receiver) st) ?s1 (mqttReceivers ?s1)"
  have c1: "continues (\<lambda>c. True) s ?s1"
    using parseGpioTopics_fields [of env m topic payload s]
    by (simp add: continues_def list_all_iff)
  have e: "emits (map ?f (mqttReceivers ?s1)) ?s1 ?t"
    by (rule emits_foldl_perform)
  have "calls_since s ?t = calls_since s ?s1 @ map ?f (mqttReceivers ?s1)"
    using calls_since_trans [OF c1 emits_continues [OF e]] emits_calls_since [OF e] by simp
  moreover have "filter is_receiver_call (map ?f xs) = map ?f xs" for xs
    by (induction xs) simp_all
  ultimately have "filter is_receiver_call (calls_since s ?t) = map ?f (mqttReceivers s)"
    using parseGpioTopics_no_receiver [of s env m topic payload]
      parseGpioTopics_fields [of env m topic payload s]
    by simp
  then show ?thesis
    using parseGpioTopics_no_receiver [of s env m topic payload]
      parseGpioTopics_fields [of env m topic payload s]
    by (simp add: onMqttDataReceived_def Let_def)
qed

lemma quiet_window_add:
  fixes d t0 :: u32
  assumes "d < 2000" and "unat t0 + 2000 < 2 ^ 32"
  shows "t0 + d < t0 + 2000"
proof -
  have a: "unat d < 2000" using assms(1) by (simp add: word_less_nat_alt)
  have b: "unat (t0 + 2000) = unat t0 + 2000"
    using assms(2) by (simp add: unat_word_ariths)
  have "unat (t0 + d) = (unat t0 + unat d) mod 2 ^ 32"
    by (simp add: unat_word_ariths)
  then have "unat (t0 + d) = unat t0 + unat d"
    using a assms(2) by simp
  then show ?thesis using a b by (simp add: word_less_nat_alt)
qed

lemma quiet_window_no_rollover:
  fixes now t0 :: u32
  assumes "now - t0 < 2000" and "unat t0 + 2000 < 2 ^ 32"
  shows "now < t0 + 2000"
  using quiet_window_add [OF assms] by simp

lemma to_string_100: "to_string 100 = ''100''"
  by (subst to_string.simps) (simp add: to_string_two_digits digit_char_def char_of_eq_iff)

lemma sim_pin_100_topic:
  "gpio_state_topic sim_macros sim_pin_100 100 = ''nuki/gpio/pin_100/state''"
  by (simp add: gpio_state_topic_def buildMqttPath_Cons joined_def cnth_def sim_macros_def
      sim_net_def sim_pin_100_def to_string_100)


lemma digit_char_17: "digit_char (Suc 0) = CHR ''1''" "digit_char 7 = CHR ''7''"
  "digit_char 0 = CHR ''0''"
  by (simp_all add: digit_char_def char_of_eq_iff)

lemma atoi_10: "atoi (cstr [CHR ''1'', CHR ''0'', NUL]) = 10"
  using atoi_two_digits [of 1 0]
  by (simp add: cstr_def NUL_def digit_char_17)

lemma sim_pin_100_parse:
  "parseGpioTopics sim_env sim_macros ''nuki/gpio/pin_100/state'' b sim_pin_100 = sim_pin_100"
  by (simp add: parseGpioTopics_def Let_def strncmp_eq_def buildMqttPath_Cons joined_def
      cnth_def atoi_10 sim_macros_def sim_net_def sim_pin_100_def sim_env_def sim_world_def)

lemma sim_connected_at_fields:
  "world (sim_connected_at c) = sim_world\<lparr>clock := c + 100, session := True\<rparr>"
  "ignoreSubscriptionsTs (sim_connected_at c) = c + 2100"
  "lockPath (sim_connected_at c) = ''nuki''"
  "mqttReceivers (sim_connected_at c) = [0]"
  unfolding sim_connected_at_def
  by (simp_all add: sim_net_def sim_world_def sim_env_def
      on_connected_def open_quiet_window_def resubscribe_def first_connect_def
      publish_init_topics_def publish_online_def notify_reconnected_def publishString_def
      mqttPublish_def perform_def)

lemma sim_wait_fields:
  "world (sim_wait d (sim_connected_at c)) = sim_world\<lparr>clock := c + 100 + d, session := True\<rparr>"
  "ignoreSubscriptionsTs (sim_wait d (sim_connected_at c)) = c + 2100"
  "lockPath (sim_wait d (sim_connected_at c)) = ''nuki''"
  by (simp_all add: sim_wait_def sim_connected_at_fields sim_world_def)

text \<open>
  C3, amended. A message that arrives less than 2000 ms after the clock reading \<open>t0\<close> from
  which the last connect has set the end of the quiet window, where the 32-bit
  millisecond counter does not roll over between \<open>t0\<close> and \<open>t0 + 2000\<close>, is handed to no
  receiver: the handler does what the GPIO parsing does and nothing else. The time that
  has passed is the clock, read after the GPIO parsing, minus \<open>t0\<close>. When the topic is the
  state topic of a pin with the output role, the one call made is the write to that pin,
  high when the C string in the payload buffer is \<open>1\<close> and low otherwise. This holds for
  pin numbers below 100, the two digits the parsing reads, and a GPIO topic prefix that is
  not empty. A connect sets the end of the window to the clock reading after its settle
  delay plus 2000 ms, in 32-bit arithmetic.
\<close>

theorem gpio_output_applies_in_quiet_window:
  assumes "ignoreSubscriptionsTs s = t0 + 2000"
    and "unat t0 + 2000 < 2 ^ 32"
    and "millis env (world (parseGpioTopics env m topic payload s)) - t0 < 2000"
  shows "onMqttDataReceived env m topic payload len idx tot s
           = parseGpioTopics env m topic payload s
         \<and> filter is_receiver_call
             (calls_since s (onMqttDataReceived env m topic payload len idx tot s)) = []
         \<and> (pin < 100 \<and> mqtt_topic_gpio_prefix m \<noteq> [] \<and> topic = gpio_state_topic m s pin
              \<and> getPinRole env (world s) (int pin) = GeneralOutput \<longrightarrow>
            onMqttDataReceived env m topic payload len idx tot s
              = perform env (DigitalWrite (int pin) (cstr_bytes payload = [49])) s)
         \<and> ignoreSubscriptionsTs (on_connected env m c)
             = millis env (exec env (Delay 100) (world c)) + 2000"
proof -
  have "millis env (world (parseGpioTopics env m topic payload s)) < ignoreSubscriptionsTs s"
    using quiet_window_no_rollover [OF assms(3) assms(2)] assms(1) by simp
  from onMqttDataReceived_before_deadline [OF this, of len idx tot pin]
    on_connected_session [of env m c]
  show ?thesis by blast
qed

text \<open>
  A command for pin 17 of the scripted world, 1999 ms after a connect that read the
  clock at 70100.
\<close>

theorem gpio_output_applies_in_quiet_window_witness:
  "ignoreSubscriptionsTs (sim_wait 1999 (sim_connected_at 70000)) = 70100 + 2000
   \<and> millis sim_env (world (sim_wait 1999 (sim_connected_at 70000))) = 70100 + 1999
   \<and> onMqttDataReceived sim_env sim_macros ''nuki/gpio/pin_17/state'' [49, 0] 1 0 1
       (sim_wait 1999 (sim_connected_at 70000))
     = perform sim_env (DigitalWrite 17 True) (sim_wait 1999 (sim_connected_at 70000))
   \<and> filter is_receiver_call
       (calls_since (sim_wait 1999 (sim_connected_at 70000))
          (onMqttDataReceived sim_env sim_macros ''nuki/gpio/pin_17/state'' [49, 0] 1 0 1
             (sim_wait 1999 (sim_connected_at 70000)))) = []"
proof -
  let ?s = "sim_wait 1999 (sim_connected_at 70000)"
  have i: "ignoreSubscriptionsTs ?s = 70100 + 2000"
    by (simp add: sim_wait_fields)
  have n: "unat (70100 :: u32) + 2000 < 2 ^ 32"
    by simp
  have w: "millis sim_env (world ?s) = 70100 + 1999"
    by (simp add: sim_wait_fields sim_env_def)
  have t: "gpio_state_topic sim_macros ?s 17 = ''nuki/gpio/pin_17/state''"
    by (simp add: gpio_state_topic_def buildMqttPath_Cons joined_def cnth_def sim_macros_def
        sim_wait_fields to_string_two_digits digit_char_17)
  have r: "getPinRole sim_env (world ?s) (int 17) = GeneralOutput"
    by (simp add: sim_wait_fields sim_env_def sim_world_def)
  have p: "parseGpioTopics sim_env sim_macros ''nuki/gpio/pin_17/state'' [49, 0] ?s
             = perform sim_env (DigitalWrite 17 True) ?s"
    using parseGpioTopics_pin [of "''nuki/gpio/pin_17/state''" ?s sim_macros 17 "''state''" sim_env "[49, 0]"] r
    by (simp add: buildMqttPath_Cons joined_def cnth_def sim_macros_def sim_wait_fields
        to_string_two_digits digit_char_17 cstr_bytes_def)
  have q: "millis sim_env (world (parseGpioTopics sim_env sim_macros ''nuki/gpio/pin_17/state'' [49, 0] ?s))
             - 70100 < 2000"
    unfolding p by (simp add: perform_def sim_wait_fields sim_env_def)
  have g: "mqtt_topic_gpio_prefix sim_macros \<noteq> []"
    by (simp add: sim_macros_def)
  note c3 = gpio_output_applies_in_quiet_window [OF i n q, where pin = 17 and len = 1
      and idx = 0 and tot = 1]
  from c3 have a: "filter is_receiver_call
       (calls_since ?s (onMqttDataReceived sim_env sim_macros ''nuki/gpio/pin_17/state'' [49, 0] 1 0 1 ?s)) = []"
    by blast
  from c3 have "(17::nat) < 100 \<and> mqtt_topic_gpio_prefix sim_macros \<noteq> []
          \<and> ''nuki/gpio/pin_17/state'' = gpio_state_topic sim_macros ?s 17
          \<and> getPinRole sim_env (world ?s) (int 17) = GeneralOutput \<longrightarrow>
        onMqttDataReceived sim_env sim_macros ''nuki/gpio/pin_17/state'' [49, 0] 1 0 1 ?s
          = perform sim_env (DigitalWrite (int 17) (cstr_bytes [49, 0] = [49])) ?s"
    by blast
  with t r g have b: "onMqttDataReceived sim_env sim_macros ''nuki/gpio/pin_17/state'' [49, 0] 1 0 1 ?s
          = perform sim_env (DigitalWrite 17 True) ?s"
    by (simp add: cstr_bytes_def)
  show ?thesis
    using i w a b by blast
qed

text \<open>
  C3, as the claim states it, fails when the millisecond counter rolls over inside the
  window. A connect that starts at 4294966000 reads the clock at 4294966100 after its
  settle delay and sets the end of the window to 804. A message that arrives right then,
  0 ms after the connect, finds the clock above the end of the window, and the receiver
  is notified. The claim also fails for a pin number of three digits: with pin 100 the
  only output pin, a command on the state topic of pin 100 inside the window is read as
  a command for pin 10 and drives nothing.
\<close>

theorem quiet_window_rollover_counterexample:
  "ignoreSubscriptionsTs (sim_connected_at 4294966000) = 804
   \<and> millis sim_env (world (sim_connected_at 4294966000)) = 4294966100
   \<and> filter is_receiver_call
       (calls_since (sim_connected_at 4294966000)
          (onMqttDataReceived sim_env sim_macros ''nuki/lock/action'' [49, 0] 1 0 1
             (sim_connected_at 4294966000)))
     = [ReceiverOnMqttDataReceived 0 ''nuki/lock/action'' [49, 0] 0]
   \<and> getPinRole sim_env (world sim_pin_100) 100 = GeneralOutput
   \<and> gpio_state_topic sim_macros sim_pin_100 100 = ''nuki/gpio/pin_100/state''
   \<and> millis sim_env (world sim_pin_100) = 70000
   \<and> ignoreSubscriptionsTs sim_pin_100 = 71000
   \<and> onMqttDataReceived sim_env sim_macros ''nuki/gpio/pin_100/state'' [49, 0] 1 0 1 sim_pin_100
     = sim_pin_100"
proof -
  let ?s = "sim_connected_at 4294966000"
  have i: "ignoreSubscriptionsTs ?s = 804"
    by (simp add: sim_connected_at_fields)
  have w: "millis sim_env (world ?s) = 4294966100"
    by (simp add: sim_connected_at_fields sim_env_def)
  have p: "parseGpioTopics sim_env sim_macros ''nuki/lock/action'' [49, 0] ?s = ?s"
    by (simp add: parseGpioTopics_def Let_def strncmp_eq_def buildMqttPath_Cons joined_def
        cnth_def sim_macros_def sim_connected_at_fields)
  have a: "filter is_receiver_call
       (calls_since ?s (onMqttDataReceived sim_env sim_macros ''nuki/lock/action'' [49, 0] 1 0 1 ?s))
     = [ReceiverOnMqttDataReceived 0 ''nuki/lock/action'' [49, 0] 0]"
    unfolding onMqttDataReceived_receiver_calls p
    by (simp add: sim_connected_at_fields sim_env_def)
  have r: "getPinRole sim_env (world sim_pin_100) 100 = GeneralOutput"
    by (simp add: sim_pin_100_def sim_net_def sim_env_def sim_world_def)
  have c: "millis sim_env (world sim_pin_100) = 70000"
    by (simp add: sim_pin_100_def sim_net_def sim_env_def sim_world_def)
  have d: "ignoreSubscriptionsTs sim_pin_100 = 71000"
    by (simp add: sim_pin_100_def sim_net_def)
  have e: "onMqttDataReceived sim_env sim_macros ''nuki/gpio/pin_100/state'' [49, 0] 1 0 1 sim_pin_100
     = sim_pin_100"
    unfolding onMqttDataReceived_def Let_def sim_pin_100_parse
    by (simp add: c d)
  show ?thesis
    using i w a r sim_pin_100_topic c d e by blast
qed

text \<open>
  C9, amended: the buffer handed to the GPIO parsing and to the receivers has 50 bytes,
  the first \<open>min len 49\<close> bytes of the payload followed by zero bytes. The length of the
  payload goes unchanged to the internal handler. A receiver is handed the topic, this
  buffer and the chunk index: outside the quiet window the receiver calls are these, one
  for each receiver in registration order, and the length is no part of them.
\<close>

theorem payload_truncated_to_buffer:
  "value_buffer (msg_payload msg)
     = take 49 (msg_payload msg) @ replicate (50 - min (length (msg_payload msg)) 49) 0
   \<and> length (value_buffer (msg_payload msg)) = 50
   \<and> onMqttDataReceivedCallback env m msg s
       = onMqttDataReceived env m (msg_topic msg) (value_buffer (msg_payload msg))
           (length (msg_payload msg)) (msg_index msg) (msg_total msg) s
   \<and> filter is_receiver_call (calls_since s (onMqttDataReceivedCallback env m msg s))
       = (if millis env (world (parseGpioTopics env m (msg_topic msg)
                                  (value_buffer (msg_payload msg)) s))
             < ignoreSubscriptionsTs s
          then []
          else map (\<lambda>receiver. ReceiverOnMqttDataReceived receiver (msg_topic msg)
                                 (value_buffer (msg_payload msg)) (msg_index msg))
                 (mqttReceivers s))"
proof -
  have "value_buffer (msg_payload msg)
     = take 49 (msg_payload msg) @ replicate (50 - min (length (msg_payload msg)) 49) 0"
    by (simp add: value_buffer_def Let_def min_def)
  then show ?thesis
    by (simp add: value_buffer_length onMqttDataReceivedCallback_def
        onMqttDataReceived_receiver_calls)
qed

text \<open>
  A payload of three bytes in the scripted world: the receiver is handed the three bytes
  and 47 zero bytes.
\<close>

theorem payload_truncated_to_buffer_witness:
  "calls_since (sim_net sim_world)
     (onMqttDataReceivedCallback sim_env sim_macros
        \<lparr>msg_topic = ''nuki/lock/action'', msg_payload = [49, 50, 51], msg_index = 0, msg_total = 3\<rparr>
        (sim_net sim_world))
   = [ReceiverOnMqttDataReceived 0 ''nuki/lock/action'' ([49, 50, 51] @ replicate 47 0) 0]"
proof -
  let ?msg = "\<lparr>msg_topic = ''nuki/lock/action'', msg_payload = [49, 50, 51], msg_index = 0, msg_total = 3\<rparr>"
  have p: "parseGpioTopics sim_env sim_macros ''nuki/lock/action'' b (sim_net sim_world)
             = sim_net sim_world" for b
    by (simp add: parseGpioTopics_def Let_def strncmp_eq_def buildMqttPath_Cons joined_def
        cnth_def sim_macros_def sim_net_def)
  have v: "value_buffer [49, 50, 51] = [49, 50, 51] @ replicate 47 0"
    using payload_truncated_to_buffer [of ?msg sim_env sim_macros "sim_net sim_world"]
    by simp
  have c: "onMqttDataReceived sim_env sim_macros ''nuki/lock/action'' b len 0 tot (sim_net sim_world)
          = perform sim_env (ReceiverOnMqttDataReceived 0 ''nuki/lock/action'' b 0) (sim_net sim_world)"
    for b len tot
    unfolding onMqttDataReceived_def Let_def p
    by (simp add: sim_net_def sim_world_def sim_env_def)
  have "onMqttDataReceivedCallback sim_env sim_macros ?msg (sim_net sim_world)
          = perform sim_env (ReceiverOnMqttDataReceived 0 ''nuki/lock/action''
                               ([49, 50, 51] @ replicate 47 0) 0) (sim_net sim_world)"
    using v by (simp add: onMqttDataReceivedCallback_def c)
  then show ?thesis
    by (simp add: calls_since_perform)
qed

text \<open>
  C9, as the claim states it, fails in its second half. Two messages on the same topic
  whose payloads have 49 and 60 bytes, equal in the first 49, lead to the same state and
  the same call on the receiver: nothing a receiver is handed tells the lengths apart.
\<close>

theorem receivers_not_told_length_counterexample:
  "length (msg_payload \<lparr>msg_topic = ''nuki/lock/action'', msg_payload = replicate 49 97,
                        msg_index = 0, msg_total = 49\<rparr>)
     \<noteq> length (msg_payload \<lparr>msg_topic = ''nuki/lock/action'', msg_payload = replicate 60 97,
                        msg_index = 0, msg_total = 60\<rparr>)
   \<and> onMqttDataReceivedCallback sim_env sim_macros
       \<lparr>msg_topic = ''nuki/lock/action'', msg_payload = replicate 49 97,
        msg_index = 0, msg_total = 49\<rparr> (sim_net sim_world)
     = onMqttDataReceivedCallback sim_env sim_macros
       \<lparr>msg_topic = ''nuki/lock/action'', msg_payload = replicate 60 97,
        msg_index = 0, msg_total = 60\<rparr> (sim_net sim_world)
   \<and> calls_since (sim_net sim_world)
       (onMqttDataReceivedCallback sim_env sim_macros
          \<lparr>msg_topic = ''nuki/lock/action'', msg_payload = replicate 60 97,
           msg_index = 0, msg_total = 60\<rparr> (sim_net sim_world))
     = [ReceiverOnMqttDataReceived 0 ''nuki/lock/action'' (replicate 49 97 @ [0]) 0]"
proof -
  have p: "parseGpioTopics sim_env sim_macros ''nuki/lock/action'' b (sim_net sim_world)
             = sim_net sim_world" for b
    by (simp add: parseGpioTopics_def Let_def strncmp_eq_def buildMqttPath_Cons joined_def
        cnth_def sim_macros_def sim_net_def)
  have v: "value_buffer (replicate 49 97) = replicate 49 97 @ [0]"
          "value_buffer (replicate 60 97) = replicate 49 97 @ [0]"
    by (simp_all add: value_buffer_def Let_def)
  have c: "onMqttDataReceived sim_env sim_macros ''nuki/lock/action'' b len 0 tot (sim_net sim_world)
          = perform sim_env (ReceiverOnMqttDataReceived 0 ''nuki/lock/action'' b 0) (sim_net sim_world)"
    for b len tot
    unfolding onMqttDataReceived_def Let_def p
    by (simp add: sim_net_def sim_world_def sim_env_def)
  show ?thesis
    by (simp add: onMqttDataReceivedCallback_def v c calls_since_perform)
qed

subsection \<open>The replay of the init topics\<close>

lemma publishes_since_trans:
  "continues P s t \<Longrightarrow> continues Q t u \<Longrightarrow>
     publishes_since s u = publishes_since s t @ publishes_since t u"
  by (simp add: publishes_since_def calls_since_trans)

lemma no_replay_refl: "no_replay m s s"
  by (simp add: no_replay_def publishes_since_def calls_since_def)

lemma reconnect_step_refl: "reconnect_step m s s"
  by (simp add: reconnect_step_def continues_refl no_replay_refl)

lemma reconnect_step_quiet:
  assumes "configuration t = configuration s" and "firstConnect t = firstConnect s"
    and "continues (\<lambda>c. \<not> is_publish c) s t"
  shows "reconnect_step m s t"
proof -
  have "publishes_since s t = []"
    using assms(3) by (auto simp: publishes_since_def continues_def filter_empty_conv list_all_iff)
  then have "no_replay m s t"
    using assms(2) by (simp add: no_replay_def)
  then show ?thesis
    using assms(1) continues_mono [OF assms(3), of "\<lambda>c. True"] by (simp add: reconnect_step_def)
qed

lemma reconnect_step_trans:
  assumes "reconnect_step m s t" and "reconnect_step m t u"
  shows "reconnect_step m s u"
proof -
  have cst: "continues (\<lambda>c. True) s t" and ctu: "continues (\<lambda>c. True) t u"
    and cfg: "configuration t = configuration s" "configuration u = configuration t"
    using assms by (simp_all add: reconnect_step_def)
  have pubs: "publishes_since s u = publishes_since s t @ publishes_since t u"
    by (rule publishes_since_trans [OF cst ctu])
  have f: "maintenancePathPrefix t = maintenancePathPrefix s" "initTopics t = initTopics s"
    using configuration_fields [OF cfg(1)] by simp_all
  have "no_replay m s u \<or> first_replay m s u"
  proof (cases "first_replay m s t")
    case True
    then obtain dn rest where r: "firstConnect s" "\<not> firstConnect t"
      "publishes_since s t =
              MqttPublish (buildMqttPath [maintenancePathPrefix s, mqtt_topic_network_device m])
                (MQTT_QOS_LEVEL m) True dn
              # map (init_publish m) (initTopics s) @ rest"
      "list_all (is_status_publish m (maintenancePathPrefix s)) rest"
      by (auto simp: first_replay_def)
    from r(2) assms(2) have n: "no_replay m t u"
      by (auto simp: reconnect_step_def first_replay_def)
    with r(2) have "\<not> firstConnect u"
      and "list_all (is_status_publish m (maintenancePathPrefix s)) (publishes_since t u)"
      using f by (simp_all add: no_replay_def)
    with r pubs have "first_replay m s u"
      unfolding first_replay_def
      by (intro conjI exI [of _ dn] exI [of _ "rest @ publishes_since t u"]) simp_all
    then show ?thesis by simp
  next
    case False
    with assms(1) have n: "no_replay m s t" by (simp add: reconnect_step_def)
    show ?thesis
    proof (cases "firstConnect s")
      case True
      with n have e: "firstConnect t" "publishes_since s t = []" by (simp_all add: no_replay_def)
      from assms(2) consider "no_replay m t u" | "first_replay m t u"
        by (auto simp: reconnect_step_def)
      then show ?thesis
      proof cases
        case 1
        with e True pubs show ?thesis by (simp add: no_replay_def)
      next
        case 2
        with e True pubs f show ?thesis by (simp add: first_replay_def)
      qed
    next
      case False
      with n have e: "\<not> firstConnect t"
        "list_all (is_status_publish m (maintenancePathPrefix s)) (publishes_since s t)"
        by (simp_all add: no_replay_def)
      from e(1) assms(2) have "no_replay m t u"
        by (auto simp: reconnect_step_def first_replay_def)
      with e False pubs f show ?thesis by (simp add: no_replay_def)
    qed
  qed
  then show ?thesis
    using cfg continues_trans [OF cst ctu] by (simp add: reconnect_step_def)
qed

lemma is_handshake_call_no_publish: "is_handshake_call c \<Longrightarrow> \<not> is_publish c"
  by (cases c) simp_all

lemma reconnect_step_handshake:
  assumes "handshake env m port s = Some t"
  shows "reconnect_step m s t"
proof -
  have hs: "handshake_step s t" by (rule handshake_step_handshake [OF assms])
  then have "continues (\<lambda>c. \<not> is_publish c) s t"
    using continues_mono [where P = is_handshake_call and Q = "\<lambda>c. \<not> is_publish c"
        and s = s and t = t] is_handshake_call_no_publish
    by (simp add: handshake_step_def)
  moreover have "configuration t = configuration s" "firstConnect t = firstConnect s"
    using hs by (simp_all add: handshake_step_def session_state_def)
  ultimately show ?thesis by (simp add: reconnect_step_quiet)
qed

lemma reconnect_step_on_connect_failed: "reconnect_step m s (on_connect_failed env s)"
  by (rule reconnect_step_quiet)
     (simp_all add: on_connect_failed_eq configuration_def continues_iff)

lemma filter_publish_connect_calls:
  "filter is_publish (connect_calls m s dn ip) =
     (if firstConnect s
      then MqttPublish (buildMqttPath [maintenancePathPrefix s, mqtt_topic_network_device m])
             (MQTT_QOS_LEVEL m) True dn
           # map (init_publish m) (initTopics s)
      else [])
     @ [MqttPublish (buildMqttPath [maintenancePathPrefix s, mqtt_topic_mqtt_connection_state m])
          (MQTT_QOS_LEVEL m) True ''online'',
        MqttPublish (buildMqttPath [maintenancePathPrefix s, mqtt_topic_info_nuki_hub_ip m])
          (MQTT_QOS_LEVEL m) True ip]"
proof -
  have a: "filter is_publish (map (\<lambda>topic. MqttSubscribe topic q) xs) = []" for q xs
    by (induction xs) simp_all
  have b: "filter is_publish (map (init_publish m) xs) = map (init_publish m) xs" for xs
    by (induction xs) (simp_all add: init_publish_def)
  have c: "filter is_publish (map ReconnectedCallback xs) = []" for xs
    by (induction xs) simp_all
  show ?thesis by (simp add: connect_calls_def a b c)
qed

lemma on_connected_replay:
  "if firstConnect s then first_replay m s (on_connected env m s)
   else no_replay m s (on_connected env m s)"
proof -
  obtain dn ip where e: "emits (connect_calls m s dn ip) s (on_connected env m s)"
    using on_connected_emits [of m s env] by blast
  have p: "publishes_since s (on_connected env m s) = filter is_publish (connect_calls m s dn ip)"
    by (simp add: publishes_since_def emits_calls_since [OF e])
  have f: "\<not> firstConnect (on_connected env m s)"
    using on_connected_session [of env m s] by simp
  show ?thesis
  proof (cases "firstConnect s")
    case True
    have "first_replay m s (on_connected env m s)"
      unfolding first_replay_def
      apply (intro conjI exI [of _ dn]
          exI [of _ "[MqttPublish (buildMqttPath [maintenancePathPrefix s, mqtt_topic_mqtt_connection_state m])
          (MQTT_QOS_LEVEL m) True ''online'',
        MqttPublish (buildMqttPath [maintenancePathPrefix s, mqtt_topic_info_nuki_hub_ip m])
          (MQTT_QOS_LEVEL m) True ip]"])
      using True f p by (simp_all add: filter_publish_connect_calls)
    with True show ?thesis by simp
  next
    case False
    then show ?thesis
      using f p by (simp add: no_replay_def filter_publish_connect_calls)
  qed
qed

lemma reconnect_step_on_connected: "reconnect_step m s (on_connected env m s)"
proof -
  obtain dn ip where e: "emits (connect_calls m s dn ip) s (on_connected env m s)"
    using on_connected_emits [of m s env] by blast
  show ?thesis
    using on_connected_replay [of s m env] emits_configuration [OF e] emits_continues [OF e]
    by (auto simp: reconnect_step_def split: if_splits)
qed

lemma reconnect_step_attempt:
  assumes "attempt env m port s = Some t"
  shows "reconnect_step m s t"
proof -
  from assms obtain s2 where h: "handshake env m port s = Some s2"
    and t: "t = (if mqttConnected env (world s2) then on_connected env m s2
                 else on_connect_failed env s2)"
    by (auto simp: attempt_def)
  have "reconnect_step m s2 t"
    using t by (simp add: reconnect_step_on_connected reconnect_step_on_connect_failed)
  with reconnect_step_handshake [OF h] show ?thesis
    by (rule reconnect_step_trans)
qed

lemma reconnect_step_fields:
  "reconnect_step m s (s\<lparr>nextReconnect := v\<rparr>)" "reconnect_step m s (s\<lparr>mqttConnectionState := n\<rparr>)"
  by (rule reconnect_step_quiet; simp add: configuration_def continues_iff)+

lemma reconnect_step_reconnect_loop:
  assumes "reconnect_loop env m port s = Some ra"
  shows "reconnect_step m s (snd ra)"
proof (rule reconnect_loop.raw_induct
         [where P = "\<lambda>env m port s ra. reconnect_step m s (snd ra)", OF _ assms])
  fix f env m port and s :: "'a net" and ra
  assume IH: "\<And>a b c d y. f a b c d = Some y \<Longrightarrow> reconnect_step b d (snd y)"
    and eq: "(if \<not> mqttConnected env (world s) \<and> nextReconnect s < millis env (world s)
              then if mqttBrokerAddr s = []
                   then Some (False, s\<lparr>nextReconnect := millis env (world s) + 5000\<rparr>)
                   else Option.bind (attempt env m port s) (f env m port)
              else Some (0 < mqttConnectionState s, s)) = Some ra"
  show "reconnect_step m s (snd ra)"
  proof (cases "\<not> mqttConnected env (world s) \<and> nextReconnect s < millis env (world s)")
    case False
    with eq show ?thesis by (auto simp: reconnect_step_refl)
  next
    case due: True
    show ?thesis
    proof (cases "mqttBrokerAddr s = []")
      case True
      with eq due show ?thesis by (auto simp: reconnect_step_fields)
    next
      case False
      with eq due obtain t where t: "attempt env m port s = Some t" "f env m port t = Some ra"
        by (auto simp: bind_eq_Some_conv)
      from IH [OF t(2)] reconnect_step_attempt [OF t(1)] show ?thesis
        by (auto intro: reconnect_step_trans)
    qed
  qed
qed

lemma reconnect_step_reconnect:
  assumes "reconnect env m s = Some (r, a)"
  shows "reconnect_step m s a"
proof -
  from assms have "reconnect_step m (s\<lparr>mqttConnectionState := 0\<rparr>) a"
    using reconnect_step_reconnect_loop [of env m _ "s\<lparr>mqttConnectionState := 0\<rparr>" "(r, a)"]
    by (simp add: reconnect_def Let_def)
  with reconnect_step_fields(2) [of m s 0] show ?thesis
    by (rule reconnect_step_trans)
qed

lemma reconnects_after_first_replay:
  assumes "\<forall>g \<in> set gs. \<forall>s. firstConnect (g s) = firstConnect s"
    and "reconnects env m gs s = Some runs"
    and "\<not> firstConnect s"
  shows "\<forall>(b, a) \<in> set runs. \<not> firstConnect b \<and> no_replay m b a"
  using assms
proof (induction gs arbitrary: s runs)
  case Nil
  then show ?case by simp
next
  case (Cons g gs)
  from Cons.prems(2) obtain r a runs' where
    r: "reconnect env m (g s) = Some (r, a)" "reconnects env m gs a = Some runs'"
       "runs = (g s, a) # runs'"
    by (auto split: option.splits)
  have b: "\<not> firstConnect (g s)"
    using Cons.prems(1,3) by simp
  with reconnect_step_reconnect [OF r(1)] have n: "no_replay m (g s) a"
    by (auto simp: reconnect_step_def first_replay_def)
  with b have "\<not> firstConnect a" by (simp add: no_replay_def)
  with Cons.IH [OF _ r(2)] Cons.prems(1)
  have "\<forall>(b, a) \<in> set runs'. \<not> firstConnect b \<and> no_replay m b a" by simp
  with b n r(3) show ?case by simp
qed

lemma reconnects_replay_once:
  assumes "\<forall>g \<in> set gs. \<forall>s. firstConnect (g s) = firstConnect s"
    and "reconnects env m gs s = Some runs"
    and "firstConnect s"
  shows "\<exists>pre post. runs = pre @ post
           \<and> (\<forall>(b, a) \<in> set pre. firstConnect b \<and> no_replay m b a)
           \<and> (post = [] \<or> first_replay m (fst (hd post)) (snd (hd post))
                \<and> (\<forall>(b, a) \<in> set (tl post). \<not> firstConnect b \<and> no_replay m b a))"
  using assms
proof (induction gs arbitrary: s runs)
  case Nil
  then show ?case by simp
next
  case (Cons g gs)
  from Cons.prems(2) obtain r a runs' where
    r: "reconnect env m (g s) = Some (r, a)" "reconnects env m gs a = Some runs'"
       "runs = (g s, a) # runs'"
    by (auto split: option.splits)
  have b: "firstConnect (g s)"
    using Cons.prems(1,3) by simp
  have gs: "\<forall>g \<in> set gs. \<forall>s. firstConnect (g s) = firstConnect s"
    using Cons.prems(1) by simp
  from reconnect_step_reconnect [OF r(1)]
  consider "first_replay m (g s) a" | "no_replay m (g s) a"
    by (auto simp: reconnect_step_def)
  then show ?case
  proof cases
    case 1
    then have "\<not> firstConnect a" by (simp add: first_replay_def)
    from reconnects_after_first_replay [OF gs r(2) this] 1 r(3)
    have "runs = [] @ runs \<and> (\<forall>(b, a) \<in> set []. firstConnect b \<and> no_replay m b a)
           \<and> (runs = [] \<or> first_replay m (fst (hd runs)) (snd (hd runs))
                \<and> (\<forall>(b, a) \<in> set (tl runs). \<not> firstConnect b \<and> no_replay m b a))"
      by simp
    then show ?thesis by blast
  next
    case 2
    with b have "firstConnect a" by (simp add: no_replay_def)
    from Cons.IH [OF gs r(2) this] obtain pre post where
      p: "runs' = pre @ post" "\<forall>(b, a) \<in> set pre. firstConnect b \<and> no_replay m b a"
         "post = [] \<or> first_replay m (fst (hd post)) (snd (hd post))
                \<and> (\<forall>(b, a) \<in> set (tl post). \<not> firstConnect b \<and> no_replay m b a)"
      by blast
    have "runs = ((g s, a) # pre) @ post
           \<and> (\<forall>(b, a) \<in> set ((g s, a) # pre). firstConnect b \<and> no_replay m b a)"
      using p(1,2) r(3) b 2 by simp
    with p(3) show ?thesis by blast
  qed
qed

text \<open>
  C2. In a process lifetime that starts with the first-connect flag set, where nothing
  but \<^verbatim>\<open>reconnect()\<close> writes the flag, the calls of \<^verbatim>\<open>reconnect()\<close> that return
  fall into three parts. The first calls leave the flag set and publish nothing. Then,
  if a connect ever succeeds, comes one call that clears the flag and publishes the name
  of the transport and every entry of the init topic map once, retained, followed only
  by connection states and local addresses. Every later call, however many there are,
  finds the flag cleared, leaves it cleared, and publishes connection states and local
  addresses only. The call that replays is the one with the first successful attempt:
  an attempt that finds the flag set and ends with MQTT connected replays.
\<close>

theorem init_topics_replayed_once:
  assumes "firstConnect s0"
    and "\<forall>g \<in> set gs. \<forall>s. firstConnect (g s) = firstConnect s"
    and "reconnects env m gs s0 = Some runs"
  shows "(\<exists>pre post. runs = pre @ post
           \<and> (\<forall>(b, a) \<in> set pre. firstConnect b \<and> no_replay m b a)
           \<and> (post = [] \<or> first_replay m (fst (hd post)) (snd (hd post))
                \<and> (\<forall>(b, a) \<in> set (tl post). \<not> firstConnect b \<and> no_replay m b a)))
         \<and> (\<forall>s port s2. firstConnect s \<and> handshake env m port s = Some s2
                \<and> mqttConnected env (world s2) \<longrightarrow>
              attempt env m port s = Some (on_connected env m s2)
              \<and> first_replay m s2 (on_connected env m s2))"
proof -
  have "attempt env m port s = Some (on_connected env m s2)
          \<and> first_replay m s2 (on_connected env m s2)"
    if h: "firstConnect s" "handshake env m port s = Some s2" "mqttConnected env (world s2)"
    for s port s2
  proof -
    have "firstConnect s2"
      using handshake_step_handshake [OF h(2)] h(1)
      by (simp add: handshake_step_def session_state_def)
    then show ?thesis
      using on_connected_replay [of s2 m env] h(2,3) by (simp add: attempt_def)
  qed
  with reconnects_replay_once [OF assms(2,3,1)] show ?thesis by blast
qed

lemma sim_first_reconnect:
  "reconnect sim_env sim_macros (sim_net sim_world) = Some (True, sim_after_first)"
  apply (simp add: reconnect_def sim_after_first_def sim_net_def sim_world_def sim_env_def)
  apply (subst reconnect_loop.simps)
  apply (simp add: attempt_def handshake_def start_handshake_def perform_def)
  apply (subst wait_for_reply.simps)
  apply (simp add: wait_step_def device_update_def perform_def handle_event_def onMqttConnect_def)
  apply (subst wait_for_reply.simps)
  apply (simp add: on_connected_def open_quiet_window_def resubscribe_def first_connect_def
      publish_init_topics_def publish_online_def notify_reconnected_def publishString_def
      mqttPublish_def perform_def buildMqttPath_pair joined_def cnth_def sim_macros_def)
  apply (subst reconnect_loop.simps)
  apply simp
  done

lemma sim_second_reconnect:
  "reconnect sim_env sim_macros (sim_drop sim_after_first) = Some (True, sim_after_second)"
  apply (simp add: reconnect_def sim_after_second_def sim_after_first_def sim_drop_def
      sim_net_def sim_world_def sim_env_def)
  apply (subst reconnect_loop.simps)
  apply (simp add: attempt_def handshake_def start_handshake_def perform_def)
  apply (subst wait_for_reply.simps)
  apply (simp add: wait_step_def device_update_def perform_def handle_event_def onMqttConnect_def)
  apply (subst wait_for_reply.simps)
  apply (simp add: on_connected_def open_quiet_window_def resubscribe_def first_connect_def
      publish_init_topics_def publish_online_def notify_reconnected_def publishString_def
      mqttPublish_def perform_def buildMqttPath_pair joined_def cnth_def sim_macros_def)
  apply (subst reconnect_loop.simps)
  apply simp
  done

text \<open>
  Two calls in the scripted environment, the broker dropping the session in between:
  the first publishes the name of the transport and the init topic before the status,
  the second the status only.
\<close>

theorem init_topics_replayed_once_witness:
  "map_option (map (\<lambda>(b, a). publishes_since b a))
     (reconnects sim_env sim_macros [id, sim_drop] (sim_net sim_world))
   = Some [[MqttPublish ''nuki/network/device'' 1 True ''Built-in Wi-Fi'',
            MqttPublish ''nuki/lock/action'' 1 True ''--'',
            MqttPublish ''nuki/mqtt/connectionState'' 1 True ''online'',
            MqttPublish ''nuki/info/nukiHubIp'' 1 True ''192.168.0.10''],
           [MqttPublish ''nuki/mqtt/connectionState'' 1 True ''online'',
            MqttPublish ''nuki/info/nukiHubIp'' 1 True ''192.168.0.10'']]"
proof -
  have f: "firstConnect (sim_net sim_world)"
    by (simp add: sim_net_def)
  have g: "\<forall>g \<in> set [id, sim_drop]. \<forall>s. firstConnect (g s) = firstConnect s"
    by (simp add: sim_drop_def)
  have runs: "reconnects sim_env sim_macros [id, sim_drop] (sim_net sim_world)
                = Some [(sim_net sim_world, sim_after_first),
                        (sim_drop sim_after_first, sim_after_second)]"
    by (simp add: sim_first_reconnect sim_second_reconnect)
  from init_topics_replayed_once [OF f g runs]
  have "\<exists>pre post. [(sim_net sim_world, sim_after_first),
                      (sim_drop sim_after_first, sim_after_second)] = pre @ post"
    by blast
  then show ?thesis
    unfolding runs
    by (simp add: publishes_since_def calls_since_def sim_drop_def sim_after_second_def
        sim_after_first_def sim_net_def)
qed

end
